theory Spec2Isabelle
  imports Main "HOL-Library.Word"
begin

chapter \<open>The prefetch manager of the stream client\<close>

text \<open>
  A shallow embedding of \<^verbatim>\<open>PrefetchManager\<close> (package \<^verbatim>\<open>stream\<close>): the
  index registry, the three dentry-cache maps, the download path with its framed record,
  the enqueue protocol and the janitor.  Go values are modelled as follows.

  \<^item> \<^verbatim>\<open>string\<close> and \<^verbatim>\<open>[]byte\<close>: a Go string is a byte sequence, modelled as
    \<^typ>\<open>string\<close>; a byte slice is a list of \<^typ>\<open>8 word\<close>.
  \<^item> \<^verbatim>\<open>uint64\<close>, \<^verbatim>\<open>uint32\<close>, \<^verbatim>\<open>int64\<close>: words of that width; \<^verbatim>\<open>int64\<close> is read
    with \<^term>\<open>sint\<close>.
  \<^item> \<^verbatim>\<open>time.Time\<close>: nanoseconds since the Unix epoch, an \<^typ>\<open>int\<close>;
    \<^verbatim>\<open>time.Duration\<close>: a 64-bit count of nanoseconds.
  \<^item> \<^verbatim>\<open>sync.Map\<close>: a map \<open>'k \<rightharpoonup> 'v\<close>; every method call is one atomic step.
  \<^item> a pointer that may be nil: an \<^typ>\<open>'a option\<close>.
  \<^item> an \<^verbatim>\<open>error\<close> result: \<^typ>\<open>'e option\<close> (\<open>None\<close> is nil), or a sum when a
    value is returned with it.
  \<^item> every reading of the clock (\<^verbatim>\<open>time.Now()\<close>) is an argument of the function
    that reads it.
\<close>

section \<open>Go library functions used by the code\<close>

type_synonym byte = "8 word"
type_synonym uint64 = "64 word"
type_synonym int64 = "64 word"
type_synonym inode = "64 word"

text \<open>\<^verbatim>\<open>strings.HasPrefix(s, prefix)\<close>:
  \<^verbatim>\<open>len(s) >= len(prefix) && s[0:len(prefix)] == prefix\<close>.\<close>

definition strings_HasPrefix :: "string \<Rightarrow> string \<Rightarrow> bool" where
  "strings_HasPrefix s pre = (length pre \<le> length s \<and> take (length pre) s = pre)"

text \<open>\<^verbatim>\<open>strings.HasSuffix(s, suffix)\<close>.\<close>

definition strings_HasSuffix :: "string \<Rightarrow> string \<Rightarrow> bool" where
  "strings_HasSuffix s suf = (length suf \<le> length s \<and> drop (length s - length suf) s = suf)"

text \<open>\<^verbatim>\<open>strings.Replace(s, old, "", 1)\<close>: the string unchanged when \<open>old\<close> is empty
  (then \<open>old == new\<close>) or does not occur in \<open>s\<close>; otherwise \<open>s\<close> without the leftmost
  occurrence of \<open>old\<close>.\<close>

fun removeFirst :: "string \<Rightarrow> string \<Rightarrow> string" where
  "removeFirst old [] = []"
| "removeFirst old (c # cs) =
     (if strings_HasPrefix (c # cs) old then drop (length old) (c # cs)
      else c # removeFirst old cs)"

definition strings_Replace1 :: "string \<Rightarrow> string \<Rightarrow> string" where
  "strings_Replace1 s old = (if old = [] then s else removeFirst old s)"

text \<open>\<^verbatim>\<open>strings.Split(s, "/")\<close>: the substrings between the separators, in order; one
  more element than there are separators, so never an empty list.\<close>

fun strings_Split :: "string \<Rightarrow> char \<Rightarrow> string list" where
  "strings_Split [] sep = [[]]"
| "strings_Split (c # cs) sep =
     (if c = sep then [] # strings_Split cs sep
      else (case strings_Split cs sep of
              [] \<Rightarrow> [[c]]
            | w # ws \<Rightarrow> (c # w) # ws))"

text \<open>\<^verbatim>\<open>strings.TrimSpace\<close> removes the leading and the trailing runes for which
  \<^verbatim>\<open>unicode.IsSpace\<close> holds.  These are the UTF-8 encodings of those runes: tab, line
  feed, vertical tab, form feed, carriage return, space, U+0085, U+00A0, U+1680,
  U+2000 to U+200A, U+2028, U+2029, U+202F, U+205F and U+3000.  A byte sequence that
  is not a valid encoding decodes to \<^verbatim>\<open>utf8.RuneError\<close>, which is no space.\<close>

definition spaceRunes :: "string list" where
  "spaceRunes =
    [[CHR 0x09], [CHR 0x0A], [CHR 0x0B], [CHR 0x0C], [CHR 0x0D], [CHR 0x20],
     [CHR 0xC2, CHR 0x85], [CHR 0xC2, CHR 0xA0],
     [CHR 0xE1, CHR 0x9A, CHR 0x80],
     [CHR 0xE2, CHR 0x80, CHR 0x80], [CHR 0xE2, CHR 0x80, CHR 0x81],
     [CHR 0xE2, CHR 0x80, CHR 0x82], [CHR 0xE2, CHR 0x80, CHR 0x83],
     [CHR 0xE2, CHR 0x80, CHR 0x84], [CHR 0xE2, CHR 0x80, CHR 0x85],
     [CHR 0xE2, CHR 0x80, CHR 0x86], [CHR 0xE2, CHR 0x80, CHR 0x87],
     [CHR 0xE2, CHR 0x80, CHR 0x88], [CHR 0xE2, CHR 0x80, CHR 0x89],
     [CHR 0xE2, CHR 0x80, CHR 0x8A],
     [CHR 0xE2, CHR 0x80, CHR 0xA8], [CHR 0xE2, CHR 0x80, CHR 0xA9],
     [CHR 0xE2, CHR 0x80, CHR 0xAF],
     [CHR 0xE2, CHR 0x81, CHR 0x9F],
     [CHR 0xE3, CHR 0x80, CHR 0x80]]"

text \<open>The width in bytes of the space rune at the start (at the end) of \<open>s\<close>; 0 when
  \<open>s\<close> does not start (end) with one.\<close>

definition leadingSpace :: "string \<Rightarrow> nat" where
  "leadingSpace s =
     (case List.find (strings_HasPrefix s) spaceRunes of None \<Rightarrow> 0 | Some r \<Rightarrow> length r)"

definition trailingSpace :: "string \<Rightarrow> nat" where
  "trailingSpace s =
     (case List.find (strings_HasSuffix s) spaceRunes of None \<Rightarrow> 0 | Some r \<Rightarrow> length r)"

lemma leadingSpace_le: "leadingSpace s \<le> length s"
  by (auto simp: leadingSpace_def strings_HasPrefix_def find_Some_iff split: option.splits)

lemma trailingSpace_le: "trailingSpace s \<le> length s"
  by (auto simp: trailingSpace_def strings_HasSuffix_def find_Some_iff split: option.splits)

function TrimLeftSpace :: "string \<Rightarrow> string" where
  "TrimLeftSpace s =
     (if leadingSpace s = 0 then s else TrimLeftSpace (drop (leadingSpace s) s))"
  by pat_completeness auto
termination
proof (relation "measure length")
  show "wf (measure length)" by simp
next
  fix s :: string
  assume "leadingSpace s \<noteq> 0"
  moreover have "leadingSpace s \<le> length s" by (rule leadingSpace_le)
  ultimately show "(drop (leadingSpace s) s, s) \<in> measure length" by simp
qed

function TrimRightSpace :: "string \<Rightarrow> string" where
  "TrimRightSpace s =
     (if trailingSpace s = 0 then s
      else TrimRightSpace (take (length s - trailingSpace s) s))"
  by pat_completeness auto
termination
proof (relation "measure length")
  show "wf (measure length)" by simp
next
  fix s :: string
  assume "trailingSpace s \<noteq> 0"
  moreover have "trailingSpace s \<le> length s" by (rule trailingSpace_le)
  ultimately show "(take (length s - trailingSpace s) s, s) \<in> measure length" by simp
qed

declare TrimLeftSpace.simps [simp del]
declare TrimRightSpace.simps [simp del]

definition strings_TrimSpace :: "string \<Rightarrow> string" where
  "strings_TrimSpace s = TrimRightSpace (TrimLeftSpace s)"

text \<open>\<^verbatim>\<open>binary.BigEndian.PutUint64(b, v)\<close> stores \<^verbatim>\<open>byte(v >> 56)\<close>, \<^verbatim>\<open>byte(v >> 48)\<close>,
  ..., \<^verbatim>\<open>byte(v)\<close> in \<open>b[0]\<close>, ..., \<open>b[7]\<close>.  These are the eight bytes.\<close>

definition PutUint64 :: "uint64 \<Rightarrow> byte list" where
  "PutUint64 v =
     [ucast (drop_bit 56 v), ucast (drop_bit 48 v), ucast (drop_bit 40 v),
      ucast (drop_bit 32 v), ucast (drop_bit 24 v), ucast (drop_bit 16 v),
      ucast (drop_bit 8 v), ucast v]"

text \<open>The bytes of a Go string, as \<^verbatim>\<open>copy(dst, s)\<close> stores them.\<close>

definition bytesOf :: "string \<Rightarrow> byte list" where
  "bytesOf s = map (\<lambda>c. of_nat (of_char c)) s"

text \<open>\<^verbatim>\<open>copy(b[lo:hi], src)\<close> on a slice \<open>b\<close> with \<open>lo \<le> hi \<le> cap(b)\<close>: the first
  \<open>min (hi - lo) (len src)\<close> elements of \<open>src\<close> overwrite \<open>b\<close> from \<open>lo\<close> on.\<close>

definition copyInto :: "'a list \<Rightarrow> nat \<Rightarrow> nat \<Rightarrow> 'a list \<Rightarrow> 'a list" where
  "copyInto b lo hi src =
     take lo b @ take (hi - lo) src @ drop (lo + min (hi - lo) (length src)) b"

section \<open>Data model\<close>

text \<open>The errors the code returns.  The code builds them with \<^verbatim>\<open>fmt.Errorf\<close>; the
  constructor names say which message.\<close>

datatype error =
    NotCfsPath \<comment> \<open>\<^verbatim>\<open>"not cfs path"\<close>\<close>
  | NotCfsFile \<comment> \<open>\<^verbatim>\<open>"not cfs file"\<close>\<close>
  | ClientError nat \<comment> \<open>an error returned by the extent client\<close>
  | OsNotExist \<comment> \<open>an error of the operating system for which \<^verbatim>\<open>os.IsNotExist\<close> holds\<close>
  | OsError nat \<comment> \<open>any other error of the operating system\<close>
  | FileSizeIs nat \<comment> \<open>\<^verbatim>\<open>"file size is (%v)"\<close>\<close>
  | ReadErr error nat nat \<comment> \<open>\<^verbatim>\<open>"read err(%v) offset(0) size(%v) readBytes(%v)"\<close>\<close>
  | ThreadsClosed \<comment> \<open>\<^verbatim>\<open>"Prefetch threads are closed"\<close>\<close>

text \<open>A call returns, or it panics (a nil pointer is dereferenced, \<^verbatim>\<open>make\<close> gets a
  negative capacity).\<close>

datatype 'a outcome = Panics | Returns 'a

text \<open>The spec's error kind \<open>NotCFS\<close> covers both messages about a path outside the
  mounted volume.\<close>

definition isNotCFS :: "error \<Rightarrow> bool" where
  "isNotCFS e = (e = NotCfsPath \<or> e = NotCfsFile)"

subsection \<open>The dentry cache (package \<^verbatim>\<open>cache\<close>)\<close>

text \<open>Modelled from the spec: the type \<^verbatim>\<open>cache.DentryCache\<close> and its operations are
  declared in another package, which is not among these sources.  The spec (4.2) gives
  it a mapping from child name to inode, an absolute expiration computed at construction
  from \<open>now + validDuration\<close>, and \<^verbatim>\<open>ResetExpiration\<close>, which sets a new absolute
  expiry.\<close>

record DentryCache =
  entries :: "string \<rightharpoonup> inode"
  expiration :: int
  validDuration :: int

definition NewDentryCache :: "int \<Rightarrow> int \<Rightarrow> DentryCache" where
  "NewDentryCache d now = \<lparr>entries = Map.empty, expiration = now + d, validDuration = d\<rparr>"

definition Put :: "string \<Rightarrow> inode \<Rightarrow> DentryCache \<Rightarrow> DentryCache" where
  "Put name ino dc = dc\<lparr>entries := (entries dc)(name \<mapsto> ino)\<rparr>"

definition Get :: "DentryCache \<Rightarrow> string \<Rightarrow> inode option" where
  "Get dc name = entries dc name"

definition IsExpired :: "int \<Rightarrow> DentryCache \<Rightarrow> bool" where
  "IsExpired now dc = (expiration dc < now)"

definition ResetExpiration :: "int \<Rightarrow> int \<Rightarrow> DentryCache \<Rightarrow> DentryCache" where
  "ResetExpiration d now dc = dc\<lparr>expiration := now + d, validDuration := d\<rparr>"

text \<open>\<^verbatim>\<open>time.Minute\<close> and \<^verbatim>\<open>DefaultIndexDentryExpiration = 60 * time.Minute\<close>, in
  nanoseconds.\<close>

definition Minute :: int where
  "Minute = 60000000000"

definition DefaultIndexDentryExpiration :: int where
  "DefaultIndexDentryExpiration = 60 * Minute"

text \<open>\<^verbatim>\<open>t.Unix()\<close>: the seconds since the epoch, rounded down.\<close>

definition Unix :: "int \<Rightarrow> int" where
  "Unix t = t div 1000000000"

subsection \<open>The structs of the prefetch manager\<close>

record FileInfo =
  path_FileInfo :: string
  inoID :: inode
  isAbs :: bool

record IndexInfo =
  path :: string
  datasetCnt :: string
  ttl :: int
  validMinute :: int64
  fileInfoMap :: "FileInfo list"

record IndexDentryInfo =
  path_IndexDentryInfo :: string
  dcache :: DentryCache

text \<open>A \<^verbatim>\<open>*BatchDownloadRespWriter\<close> is an address in the heap of response writers
  (\<^verbatim>\<open>respWriters\<close> below).\<close>

record DownloadFileInfo =
  absPath :: string
  fileInfo :: "FileInfo option"
  resp :: nat

record PrefetchMetrics =
  appReadCount :: uint64
  totalReadCount :: uint64

text \<open>The fields of \<^verbatim>\<open>PrefetchManager\<close> that the modelled functions read or write.  A
  channel is the list of its queued elements, oldest first.  The registry and the
  channels hold \<^verbatim>\<open>*IndexInfo\<close> and \<^verbatim>\<open>*FileInfo\<close> pointers; the model holds the
  values.\<close>

record PrefetchManager =
  mountPoint :: string
  indexFileInfoMap :: "string \<rightharpoonup> IndexInfo"
  indexInfoChan :: "IndexInfo list"
  filePathChan :: "FileInfo list"
  downloadChan :: "DownloadFileInfo list"
  lookupDcache :: "inode \<rightharpoonup> DentryCache"
  appPid :: "32 word \<rightharpoonup> bool"
  dcacheMap :: "inode \<rightharpoonup> IndexDentryInfo"
  metrics :: "PrefetchMetrics option"
  isClosed :: bool

text \<open>\<^verbatim>\<open>BatchDownloadRespWriter\<close>: the counter of its wait group and the bytes written
  to its \<^verbatim>\<open>Writer\<close> so far.\<close>

record BatchDownloadRespWriter =
  Wg :: int
  Writer :: "byte list"

text \<open>What lies outside the manager and is changed by the code: the response writers, the
  block pool and the streams of the extent client.  \<open>blocksOut\<close> counts the buffers
  handed out by \<^verbatim>\<open>GetBlockBuf\<close> and not yet given back by \<^verbatim>\<open>PutBlockBuf\<close>;
  \<open>openStreams\<close> counts, per inode, the successful \<^verbatim>\<open>OpenStream\<close> calls not yet
  followed by \<^verbatim>\<open>CloseStream\<close>; \<open>lookups\<close> lists the calls of \<^verbatim>\<open>ec.lookup\<close> made so
  far, oldest first; \<open>wgCalls\<close> lists the calls of \<^verbatim>\<open>Wg.Add\<close> and \<^verbatim>\<open>Wg.Done\<close>,
  each with the address of its response writer and its delta.\<close>

record world =
  respWriters :: "nat \<Rightarrow> BatchDownloadRespWriter"
  blocksOut :: int
  openStreams :: "inode \<Rightarrow> int"
  lookups :: "(inode \<times> string) list"
  wgCalls :: "(nat \<times> int) list"

text \<open>What the collaborators outside these sources answer: the constant
  \<^verbatim>\<open>proto.RootIno\<close>, the methods of \<^verbatim>\<open>ExtentClient\<close> (for a stable snapshot of the
  file system), \<^verbatim>\<open>os.Stat\<close>, and the stale contents of the buffer the block pool hands
  out for a requested size.\<close>

record externals =
  RootIno :: inode
  ec_lookup :: "inode \<Rightarrow> string \<Rightarrow> error + inode"
  ec_OpenStream :: "inode \<Rightarrow> error option"
  ec_FileSize :: "inode \<Rightarrow> nat \<times> bool"
  ec_Read :: "inode \<Rightarrow> nat \<Rightarrow> nat \<Rightarrow> byte list \<times> error option"
  os_Stat :: "string \<Rightarrow> error option"
  poolBlock :: "nat \<Rightarrow> byte list"

section \<open>Absolute-path lookup: \<^verbatim>\<open>LookupPathByCache\<close>\<close>

text \<open>The start of the loop body: \<^verbatim>\<open>lookupDcache.Load(ino)\<close>; on a hit of the map,
  \<^verbatim>\<open>dcache.Get(dir)\<close>; on a miss of the map, \<^verbatim>\<open>LoadOrStore\<close> of a new cache.  The
  result is the child found in the cache, if any, the cache of \<open>ino\<close>, and the manager.\<close>

definition cacheProbe ::
  "int \<Rightarrow> inode \<Rightarrow> string \<Rightarrow> PrefetchManager \<Rightarrow> inode option \<times> DentryCache \<times> PrefetchManager" where
  "cacheProbe now ino dir pm =
     (case lookupDcache pm ino of
        Some dc \<Rightarrow> (Get dc dir, dc, pm)
      | None \<Rightarrow>
          (let dc = NewDentryCache DefaultIndexDentryExpiration now
           in (None, dc, pm\<lparr>lookupDcache := (lookupDcache pm)(ino \<mapsto> dc)\<rparr>)))"

text \<open>\<^verbatim>\<open>dcache.Put(dir, child)\<close> on the cache of \<open>ino\<close>, an object shared with the
  map.\<close>

definition cachePut ::
  "inode \<Rightarrow> DentryCache \<Rightarrow> string \<Rightarrow> inode \<Rightarrow> PrefetchManager \<Rightarrow> PrefetchManager" where
  "cachePut ino dc dir child pm = pm\<lparr>lookupDcache := (lookupDcache pm)(ino \<mapsto> Put dir child dc)\<rparr>"

definition recordLookup :: "inode \<Rightarrow> string \<Rightarrow> world \<Rightarrow> world" where
  "recordLookup ino dir w = w\<lparr>lookups := lookups w @ [(ino, dir)]\<rparr>"

text \<open>The loop \<^verbatim>\<open>for index, dir := range dirs\<close>, on the elements not yet visited, each
  with its index; \<open>n\<close> is \<^verbatim>\<open>len(dirs)\<close>.  \<open>clock ino\<close> is the reading of the clock when
  the cache of \<open>ino\<close> is created.\<close>

fun lookupDirs ::
  "externals \<Rightarrow> (inode \<Rightarrow> int) \<Rightarrow> nat \<Rightarrow> (nat \<times> string) list \<Rightarrow> inode \<Rightarrow>
   PrefetchManager \<Rightarrow> world \<Rightarrow> (error + inode) \<times> PrefetchManager \<times> world" where
  "lookupDirs ex clock n [] ino pm w = (Inr ino, pm, w)"
| "lookupDirs ex clock n ((index, dir) # rest) ino pm w =
     (if dir = ''/'' \<or> dir = [] then lookupDirs ex clock n rest ino pm w
      else
        (case cacheProbe (clock ino) ino dir pm of
           (Some child, dc, pm1) \<Rightarrow> lookupDirs ex clock n rest child pm1 w
         | (None, dc, pm1) \<Rightarrow>
             (case ec_lookup ex ino dir of
                Inl err \<Rightarrow> (Inl err, pm1, recordLookup ino dir w)
              | Inr child \<Rightarrow>
                  lookupDirs ex clock n rest child
                    (if int index \<noteq> int n - 1 then cachePut ino dc dir child pm1 else pm1)
                    (recordLookup ino dir w))))"

definition LookupPathByCache ::
  "externals \<Rightarrow> (inode \<Rightarrow> int) \<Rightarrow> string \<Rightarrow> PrefetchManager \<Rightarrow> world \<Rightarrow>
   (error + inode) \<times> PrefetchManager \<times> world" where
  "LookupPathByCache ex clock p pm w =
     (if \<not> strings_HasPrefix p (mountPoint pm) then (Inl NotCfsPath, pm, w)
      else
        (let subDir = strings_Replace1 p (mountPoint pm)
         in if subDir = [] \<or> subDir = ''/'' then (Inl NotCfsFile, pm, w)
            else
              (let dirs = strings_Split subDir CHR ''/''
               in lookupDirs ex clock (length dirs) (enumerate 0 dirs) (RootIno ex) pm w)))"

text \<open>The resolution in the words of the spec (4.4 C, steps 3 and 4), with the one change
  that the cache is consulted for the last component too.  Step 3: for each component
  except the last, consult the cache at the current inode; on a hit advance; on a miss
  call \<^verbatim>\<open>FS.Lookup\<close> and put the result into the cache.\<close>

fun resolveInner ::
  "externals \<Rightarrow> (inode \<Rightarrow> int) \<Rightarrow> string list \<Rightarrow> inode \<Rightarrow>
   PrefetchManager \<Rightarrow> world \<Rightarrow> (error + inode) \<times> PrefetchManager \<times> world" where
  "resolveInner ex clock [] ino pm w = (Inr ino, pm, w)"
| "resolveInner ex clock (d # ds) ino pm w =
     (case cacheProbe (clock ino) ino d pm of
        (Some child, dc, pm1) \<Rightarrow> resolveInner ex clock ds child pm1 w
      | (None, dc, pm1) \<Rightarrow>
          (case ec_lookup ex ino d of
             Inl err \<Rightarrow> (Inl err, pm1, recordLookup ino d w)
           | Inr child \<Rightarrow>
               resolveInner ex clock ds child
                 (cachePut ino dc d child pm1) (recordLookup ino d w)))"

text \<open>Step 4, for the last component: on a miss call \<^verbatim>\<open>FS.Lookup\<close> without caching
  the result.\<close>

definition resolveLast ::
  "externals \<Rightarrow> (inode \<Rightarrow> int) \<Rightarrow> string \<Rightarrow> inode \<Rightarrow>
   PrefetchManager \<Rightarrow> world \<Rightarrow> (error + inode) \<times> PrefetchManager \<times> world" where
  "resolveLast ex clock d ino pm w =
     (case cacheProbe (clock ino) ino d pm of
        (Some child, dc, pm1) \<Rightarrow> (Inr child, pm1, w)
      | (None, dc, pm1) \<Rightarrow> (ec_lookup ex ino d, pm1, recordLookup ino d w))"

definition resolveComponents ::
  "externals \<Rightarrow> (inode \<Rightarrow> int) \<Rightarrow> string list \<Rightarrow> inode \<Rightarrow>
   PrefetchManager \<Rightarrow> world \<Rightarrow> (error + inode) \<times> PrefetchManager \<times> world" where
  "resolveComponents ex clock ds ino pm w =
     (if ds = [] then (Inr ino, pm, w)
      else
        (case resolveInner ex clock (butlast ds) ino pm w of
           (Inl err, pm1, w1) \<Rightarrow> (Inl err, pm1, w1)
         | (Inr parent, pm1, w1) \<Rightarrow> resolveLast ex clock (last ds) parent pm1 w1))"

text \<open>The components of a path below the mount point: the elements of the split that
  are not empty.\<close>

definition components :: "string \<Rightarrow> string list" where
  "components subDir = filter (\<lambda>d. d \<noteq> []) (strings_Split subDir CHR ''/'')"

text \<open>The pair cached for \<open>name\<close> under the parent \<open>ino\<close>, if any.\<close>

definition cachedChild :: "PrefetchManager \<Rightarrow> inode \<Rightarrow> string \<Rightarrow> inode option" where
  "cachedChild pm ino name =
     (case lookupDcache pm ino of None \<Rightarrow> None | Some dc \<Rightarrow> Get dc name)"

section \<open>The download path\<close>

subsection \<open>The block pool, the response writer and the wait group\<close>

text \<open>Modelled from the spec: \<^verbatim>\<open>GetBlockBuf\<close> and \<^verbatim>\<open>PutBlockBuf\<close> are declared in a
  file that is not among these sources.  The spec (4.1) says that acquiring returns a
  buffer whose capacity is at least the requested size.  Its contents are what the pool
  holds (\<open>poolBlock\<close>), extended to the requested size where that is shorter.\<close>

definition GetBlockBuf :: "externals \<Rightarrow> nat \<Rightarrow> world \<Rightarrow> byte list \<times> world" where
  "GetBlockBuf ex n w =
     (poolBlock ex n @ replicate (n - length (poolBlock ex n)) 0,
      w\<lparr>blocksOut := blocksOut w + 1\<rparr>)"

definition PutBlockBuf :: "world \<Rightarrow> world" where
  "PutBlockBuf w = w\<lparr>blocksOut := blocksOut w - 1\<rparr>"

text \<open>\<^verbatim>\<open>resp.write(data)\<close>: under the mutex of the writer, \<^verbatim>\<open>Writer.Write(data)\<close> and a
  flush.  The code ignores what \<^verbatim>\<open>Write\<close> returns; \<open>Writer\<close> holds the bytes handed to
  it.\<close>

definition resp_write :: "nat \<Rightarrow> byte list \<Rightarrow> world \<Rightarrow> world" where
  "resp_write r data w =
     w\<lparr>respWriters := (respWriters w)(r := (respWriters w r)\<lparr>Writer := Writer (respWriters w r) @ data\<rparr>)\<rparr>"

text \<open>\<^verbatim>\<open>resp.Wg.Add(delta)\<close>; \<^verbatim>\<open>resp.Wg.Done()\<close> is \<^verbatim>\<open>Add(-1)\<close>.  The counter is
  an \<^typ>\<open>int\<close>: Go panics when a call makes it negative, which the \<^verbatim>\<open>Add(1)\<close> of
  the enqueue rules out for the \<^verbatim>\<open>Done\<close> of a job taken from the queue.\<close>

definition Wg_Add :: "nat \<Rightarrow> int \<Rightarrow> world \<Rightarrow> world" where
  "Wg_Add r delta w =
     w\<lparr>respWriters := (respWriters w)(r := (respWriters w r)\<lparr>Wg := Wg (respWriters w r) + delta\<rparr>),
       wgCalls := wgCalls w @ [(r, delta)]\<rparr>"

definition Wg_Done :: "nat \<Rightarrow> world \<Rightarrow> world" where
  "Wg_Done r w = Wg_Add r (- 1) w"

subsection \<open>\<^verbatim>\<open>ReadData\<close>\<close>

text \<open>The start of \<^verbatim>\<open>ReadData\<close>: the inode of the job, from its \<^verbatim>\<open>fileInfo\<close> or by
  \<^verbatim>\<open>LookupPathByCache\<close>.\<close>

definition resolveInode ::
  "externals \<Rightarrow> (inode \<Rightarrow> int) \<Rightarrow> DownloadFileInfo \<Rightarrow> PrefetchManager \<Rightarrow> world \<Rightarrow>
   (error + inode) \<times> PrefetchManager \<times> world" where
  "resolveInode ex clock dInfo pm w =
     (case fileInfo dInfo of
        None \<Rightarrow> LookupPathByCache ex clock (absPath dInfo) pm w
      | Some fi \<Rightarrow>
          if inoID fi = 0 then LookupPathByCache ex clock (absPath dInfo) pm w
          else (Inr (inoID fi), pm, w))"

text \<open>The part of \<^verbatim>\<open>ReadData\<close> between \<^verbatim>\<open>OpenStream\<close> and the deferred
  \<^verbatim>\<open>CloseStream\<close>; the result is \<^verbatim>\<open>err\<close>, \<^verbatim>\<open>content\<close> and \<^verbatim>\<open>readSize\<close> at the
  return.  \<^verbatim>\<open>ec.Read\<close> stores what it read in \<^verbatim>\<open>content[:fileSize]\<close>, at most
  \<^verbatim>\<open>fileSize\<close> bytes, and returns their number.\<close>

definition readStream ::
  "externals \<Rightarrow> inode \<Rightarrow> world \<Rightarrow> error option \<times> byte list \<times> nat \<times> world" where
  "readStream ex inodeID w =
     (case ec_FileSize ex inodeID of
        (fileSize, valid) \<Rightarrow>
          if \<not> valid \<or> fileSize = 0 then (Some (FileSizeIs fileSize), [], 0, w)
          else
            (case GetBlockBuf ex fileSize w of
               (content, w1) \<Rightarrow>
                 (case ec_Read ex inodeID 0 fileSize of
                    (got, rerr) \<Rightarrow>
                      (let data = take fileSize got;
                           readSize = length data;
                           content1 = copyInto content 0 fileSize data
                       in case rerr of
                            Some e \<Rightarrow> (Some (ReadErr e fileSize readSize), content1, readSize, w1)
                          | None \<Rightarrow> (None, content1, readSize, w1)))))"

text \<open>The record laid out in \<^verbatim>\<open>respData\<close>, a buffer from the pool, and the slice of
  it that is written: \<^verbatim>\<open>respData[:dataLen]\<close>.\<close>

definition frameRecord :: "byte list \<Rightarrow> string \<Rightarrow> byte list \<Rightarrow> nat \<Rightarrow> byte list" where
  "frameRecord respData filePath content readSize =
     (let dataLen = 8 + length filePath + 8 + readSize;
          b1 = copyInto respData 0 8 (PutUint64 (of_nat (length filePath)));
          b2 = copyInto b1 8 (8 + length filePath) (bytesOf filePath);
          b3 = copyInto b2 (8 + length filePath) (16 + length filePath)
                 (PutUint64 (of_nat readSize));
          b4 = copyInto b3 (16 + length filePath) dataLen (take readSize content)
      in take dataLen b4)"

text \<open>The first deferred function of \<^verbatim>\<open>ReadData\<close>, which runs last.\<close>

definition writeResponse ::
  "externals \<Rightarrow> DownloadFileInfo \<Rightarrow> error option \<Rightarrow> byte list \<Rightarrow> nat \<Rightarrow> world \<Rightarrow> world" where
  "writeResponse ex dInfo err content readSize w =
     Wg_Done (resp dInfo)
       (if err = None \<and> readSize > 0 then
          (case GetBlockBuf ex (8 + length (absPath dInfo) + 8 + readSize) w of
             (respData, w1) \<Rightarrow>
               (let w2 = resp_write (resp dInfo)
                           (frameRecord respData (absPath dInfo) content readSize) w1;
                    w3 = PutBlockBuf w2
                in if length content > 0 then PutBlockBuf w3 else w3))
        else w)"

text \<open>\<^verbatim>\<open>ec.OpenStream\<close> succeeded; \<^verbatim>\<open>ec.CloseStream\<close>.\<close>

definition streamOpened :: "inode \<Rightarrow> world \<Rightarrow> world" where
  "streamOpened ino w = w\<lparr>openStreams := (openStreams w)(ino := openStreams w ino + 1)\<rparr>"

definition CloseStream :: "inode \<Rightarrow> world \<Rightarrow> world" where
  "CloseStream ino w = w\<lparr>openStreams := (openStreams w)(ino := openStreams w ino - 1)\<rparr>"

text \<open>\<^verbatim>\<open>ReadData\<close>: the body with the deferred \<^verbatim>\<open>CloseStream\<close>, then the deferred
  function that writes the response and calls \<^verbatim>\<open>Wg.Done\<close>.\<close>

definition ReadData ::
  "externals \<Rightarrow> (inode \<Rightarrow> int) \<Rightarrow> DownloadFileInfo \<Rightarrow> PrefetchManager \<Rightarrow> world \<Rightarrow>
   error option \<times> PrefetchManager \<times> world" where
  "ReadData ex clock dInfo pm w =
     (case resolveInode ex clock dInfo pm w of
        (Inl err, pm1, w1) \<Rightarrow> (Some err, pm1, writeResponse ex dInfo (Some err) [] 0 w1)
      | (Inr inodeID, pm1, w1) \<Rightarrow>
          (case ec_OpenStream ex inodeID of
             Some err \<Rightarrow> (Some err, pm1, writeResponse ex dInfo (Some err) [] 0 w1)
           | None \<Rightarrow>
               (case readStream ex inodeID (streamOpened inodeID w1) of
                  (err, content, readSize, w2) \<Rightarrow>
                    (err, pm1,
                     writeResponse ex dInfo err content readSize (CloseStream inodeID w2)))))"

subsection \<open>The download queue\<close>

definition putDownloadChan ::
  "DownloadFileInfo \<Rightarrow> PrefetchManager \<Rightarrow> world \<Rightarrow> error option \<times> PrefetchManager \<times> world" where
  "putDownloadChan dInfo pm w =
     (if isClosed pm then (Some ThreadsClosed, pm, w)
      else (None, pm\<lparr>downloadChan := downloadChan pm @ [dInfo]\<rparr>, Wg_Add (resp dInfo) 1 w))"

text \<open>The loop of \<^verbatim>\<open>clearDownloadChan\<close> on the queued jobs.\<close>

fun drainDownloads :: "DownloadFileInfo list \<Rightarrow> world \<Rightarrow> world" where
  "drainDownloads [] w = w"
| "drainDownloads (dInfo # rest) w = drainDownloads rest (Wg_Done (resp dInfo) w)"

definition clearDownloadChan :: "PrefetchManager \<Rightarrow> world \<Rightarrow> PrefetchManager \<times> world" where
  "clearDownloadChan pm w = (pm\<lparr>downloadChan := []\<rparr>, drainDownloads (downloadChan pm) w)"

text \<open>The case \<^verbatim>\<open>dInfo := <-pManager.downloadChan\<close> of a worker: it takes the oldest
  job and runs \<^verbatim>\<open>ReadData\<close> on it; the error is logged.  \<open>None\<close> when the queue is
  empty (the case is not enabled).\<close>

definition workerDownload ::
  "externals \<Rightarrow> (inode \<Rightarrow> int) \<Rightarrow> PrefetchManager \<Rightarrow> world \<Rightarrow> (PrefetchManager \<times> world) option" where
  "workerDownload ex clock pm w =
     (case downloadChan pm of
        [] \<Rightarrow> None
      | dInfo # rest \<Rightarrow>
          (case ReadData ex clock dInfo (pm\<lparr>downloadChan := rest\<rparr>) w of
             (err, pm1, w1) \<Rightarrow> Some (pm1, w1)))"

text \<open>\<^verbatim>\<open>DownloadPath\<close> and \<^verbatim>\<open>DownloadData\<close> build the job and enqueue it; the error of
  the enqueue is logged.  \<^verbatim>\<open>path.Join\<close> of the mount point and a path is an argument
  (\<open>joined\<close>).\<close>

definition DownloadPath :: "string \<Rightarrow> nat \<Rightarrow> PrefetchManager \<Rightarrow> world \<Rightarrow> PrefetchManager \<times> world" where
  "DownloadPath filePath respData pm w =
     snd (putDownloadChan \<lparr>absPath = filePath, fileInfo = None, resp = respData\<rparr> pm w)"

definition DownloadData ::
  "string \<Rightarrow> FileInfo \<Rightarrow> nat \<Rightarrow> PrefetchManager \<Rightarrow> world \<Rightarrow> PrefetchManager \<times> world" where
  "DownloadData joined fi respData pm w =
     snd (putDownloadChan \<lparr>absPath = joined, fileInfo = Some fi, resp = respData\<rparr> pm w)"

text \<open>\<^verbatim>\<open>Close\<close>: the manager is marked closed, the workers are joined, and the download
  queue is drained.\<close>

definition Close :: "PrefetchManager \<Rightarrow> world \<Rightarrow> PrefetchManager \<times> world" where
  "Close pm w = clearDownloadChan (pm\<lparr>isClosed := True\<rparr>) w"

text \<open>What happens to the download queue, one event after the other: a caller enqueues a
  job, a worker handles the oldest job, or the manager is closed.\<close>

datatype queueEvent = Enqueue DownloadFileInfo | Handle | Shutdown

fun queueStep ::
  "externals \<Rightarrow> (inode \<Rightarrow> int) \<Rightarrow> queueEvent \<Rightarrow> PrefetchManager \<times> world \<Rightarrow>
   PrefetchManager \<times> world" where
  "queueStep ex clock (Enqueue dInfo) (pm, w) = snd (putDownloadChan dInfo pm w)"
| "queueStep ex clock Handle (pm, w) =
     (case workerDownload ex clock pm w of None \<Rightarrow> (pm, w) | Some s \<Rightarrow> s)"
| "queueStep ex clock Shutdown (pm, w) = Close pm w"

text \<open>The counter of the wait group of the writer \<open>r\<close>, less the jobs for \<open>r\<close> that
  wait in the download queue.\<close>

definition settled :: "nat \<Rightarrow> PrefetchManager \<times> world \<Rightarrow> int" where
  "settled r s =
     Wg (respWriters (snd s) r) - int (length (filter (\<lambda>d. resp d = r) (downloadChan (fst s))))"

section \<open>The index registry\<close>

text \<open>\<^verbatim>\<open>m.Range(f)\<close> of a \<^verbatim>\<open>sync.Map\<close> with a callback that always returns true:
  \<open>ks\<close> are the keys in the order in which they are visited, \<open>load\<close> selects the
  map in the state, and the callback gets the value stored under the key when it is
  visited.\<close>

fun sync_Range :: "'k list \<Rightarrow> ('s \<Rightarrow> 'k \<rightharpoonup> 'v) \<Rightarrow> ('k \<Rightarrow> 'v \<Rightarrow> 's \<Rightarrow> 's) \<Rightarrow> 's \<Rightarrow> 's" where
  "sync_Range [] load f s = s"
| "sync_Range (k # ks) load f s =
     sync_Range ks load f (case load s k of None \<Rightarrow> s | Some v \<Rightarrow> f k v s)"

text \<open>\<^verbatim>\<open>time.Duration(ttlMinute) * time.Minute\<close>: a product of 64-bit integers, which
  wraps around.\<close>

definition minutes :: "int64 \<Rightarrow> int64" where
  "minutes ttlMinute = ttlMinute * 60000000000"

subsection \<open>\<^verbatim>\<open>AddIndexFilepath\<close>\<close>

text \<open>The callback of the \<^verbatim>\<open>Range\<close> over \<^verbatim>\<open>dcacheMap\<close> in
  \<^verbatim>\<open>resetExistedIndexInfo\<close>; \<open>clock key\<close> is the reading of the clock in
  \<^verbatim>\<open>ResetExpiration\<close> for that key.\<close>

definition resetDcache ::
  "(inode \<Rightarrow> int) \<Rightarrow> string \<Rightarrow> int \<Rightarrow> inode \<Rightarrow> IndexDentryInfo \<Rightarrow> PrefetchManager \<Rightarrow> PrefetchManager" where
  "resetDcache clock oldPath dcacheValid key indexDentryInfo pm =
     (if path_IndexDentryInfo indexDentryInfo = oldPath then
        pm\<lparr>dcacheMap := (dcacheMap pm)(key \<mapsto>
             indexDentryInfo\<lparr>dcache := ResetExpiration dcacheValid (clock key) (dcache indexDentryInfo)\<rparr>)\<rparr>
      else pm)"

text \<open>\<^verbatim>\<open>resetExistedIndexInfo\<close>.  \<open>tCheck\<close> and \<open>tSet\<close> are its two readings of the
  clock, \<open>ks\<close> the order of the \<^verbatim>\<open>Range\<close>.  The function changes \<^verbatim>\<open>oldIndexInfo\<close>
  through its pointer; the model returns the changed value, which the caller keeps
  where the pointer came from.\<close>

definition resetExistedIndexInfo ::
  "int \<Rightarrow> int \<Rightarrow> (inode \<Rightarrow> int) \<Rightarrow> inode list \<Rightarrow> IndexInfo \<Rightarrow> IndexInfo \<Rightarrow> int64 \<Rightarrow>
   PrefetchManager \<Rightarrow> bool \<times> IndexInfo \<times> PrefetchManager" where
  "resetExistedIndexInfo tCheck tSet clock ks oldIndexInfo newIndexInfo ttlMinute pm =
     (if ttl oldIndexInfo > 0 \<and> Unix tCheck > ttl oldIndexInfo then
        (False, oldIndexInfo,
         pm\<lparr>indexFileInfoMap := (indexFileInfoMap pm)(path newIndexInfo \<mapsto> newIndexInfo)\<rparr>)
      else
        (let old1 =
               (if ttlMinute = 0 then oldIndexInfo\<lparr>ttl := 0, validMinute := 0\<rparr>
                else oldIndexInfo\<lparr>ttl := Unix (tSet + sint (minutes ttlMinute)),
                                  validMinute := ttlMinute\<rparr>);
             dcacheValid =
               (if ttlMinute = 0 then DefaultIndexDentryExpiration
                else sint (minutes ttlMinute))
         in (True, old1,
             sync_Range ks dcacheMap (resetDcache clock (path old1) dcacheValid) pm)))"

definition putIndexInfoChan :: "IndexInfo \<Rightarrow> PrefetchManager \<Rightarrow> error option \<times> PrefetchManager" where
  "putIndexInfoChan indexInfo pm =
     (if isClosed pm then (Some ThreadsClosed, pm)
      else (None, pm\<lparr>indexInfoChan := indexInfoChan pm @ [indexInfo]\<rparr>))"

definition putFilePathChan :: "FileInfo \<Rightarrow> PrefetchManager \<Rightarrow> error option \<times> PrefetchManager" where
  "putFilePathChan fi pm =
     (if isClosed pm then (Some ThreadsClosed, pm)
      else (None, pm\<lparr>filePathChan := filePathChan pm @ [fi]\<rparr>))"

text \<open>The end of \<^verbatim>\<open>AddIndexFilepath\<close>: \<^verbatim>\<open>os.Stat\<close>, then the enqueue.\<close>

definition statAndEnqueue ::
  "externals \<Rightarrow> string \<Rightarrow> IndexInfo \<Rightarrow> PrefetchManager \<Rightarrow> error option \<times> PrefetchManager" where
  "statAndEnqueue ex p indexInfo pm =
     (if os_Stat ex p = Some OsNotExist then
        (Some OsNotExist, pm\<lparr>indexFileInfoMap := (indexFileInfoMap pm)(p := None)\<rparr>)
      else putIndexInfoChan indexInfo pm)"

text \<open>The readings of the clock in one call of \<^verbatim>\<open>AddIndexFilepath\<close>, and the order of
  the \<^verbatim>\<open>Range\<close> in it.\<close>

record addIndexClock =
  tNew :: int
  tCheck :: int
  tSet :: int
  tReset :: "inode \<Rightarrow> int"
  rangeOrder :: "inode list"

definition AddIndexFilepath ::
  "externals \<Rightarrow> addIndexClock \<Rightarrow> string \<Rightarrow> string \<Rightarrow> int64 \<Rightarrow> PrefetchManager \<Rightarrow>
   error option \<times> PrefetchManager" where
  "AddIndexFilepath ex c cnt p ttlMinute pm =
     (let candidate = \<lparr>path = p, datasetCnt = cnt, ttl = 0, validMinute = 0, fileInfoMap = []\<rparr>;
          indexInfo =
            (if 0 < sint ttlMinute then
               candidate\<lparr>ttl := Unix (tNew c + sint (minutes ttlMinute)), validMinute := ttlMinute\<rparr>
             else candidate)
      in case indexFileInfoMap pm p of
           None \<Rightarrow>
             statAndEnqueue ex p indexInfo
               (pm\<lparr>indexFileInfoMap := (indexFileInfoMap pm)(p \<mapsto> indexInfo)\<rparr>)
         | Some oldIndexInfo \<Rightarrow>
             (case resetExistedIndexInfo (tCheck c) (tSet c) (tReset c) (rangeOrder c)
                     oldIndexInfo indexInfo ttlMinute pm of
                (done, old1, pm1) \<Rightarrow>
                  if done then
                    (None, pm1\<lparr>indexFileInfoMap := (indexFileInfoMap pm1)(p \<mapsto> old1)\<rparr>)
                  else statAndEnqueue ex p indexInfo pm1))"

text \<open>An entry of the registry is expired when \<open>ttl > 0\<close> and the clock, in seconds, is
  past it.\<close>

definition indexExpired :: "int \<Rightarrow> IndexInfo \<Rightarrow> bool" where
  "indexExpired now indexInfo = (ttl indexInfo > 0 \<and> Unix now > ttl indexInfo)"

text \<open>The invariant of the registry (spec, section 3): every entry is stored under its
  own path.\<close>

definition registryKeyed :: "PrefetchManager \<Rightarrow> bool" where
  "registryKeyed pm = (\<forall>p indexInfo. indexFileInfoMap pm p = Some indexInfo \<longrightarrow> path indexInfo = p)"

subsection \<open>\<^verbatim>\<open>readIndexFileByLine\<close>\<close>

text \<open>\<^verbatim>\<open>strconv.ParseInt(s, 10, 64)\<close>: an optional sign, then one or more decimal digits;
  \<open>None\<close> (an error) for any other string and for a value outside the 64-bit range.\<close>

definition digitValue :: "char \<Rightarrow> nat option" where
  "digitValue c =
     (if (of_char CHR ''0'' :: nat) \<le> of_char c \<and> (of_char c :: nat) \<le> of_char CHR ''9''
      then Some (of_char c - of_char CHR ''0'') else None)"

fun parseDigits :: "nat \<Rightarrow> string \<Rightarrow> nat option" where
  "parseDigits acc [] = Some acc"
| "parseDigits acc (c # cs) =
     (case digitValue c of None \<Rightarrow> None | Some d \<Rightarrow> parseDigits (10 * acc + d) cs)"

definition ParseInt :: "string \<Rightarrow> int option" where
  "ParseInt s =
     (let neg = (s \<noteq> [] \<and> hd s = CHR ''-'');
          digits = (if s \<noteq> [] \<and> (hd s = CHR ''+'' \<or> hd s = CHR ''-'') then tl s else s)
      in if digits = [] then None
         else
           (case parseDigits 0 digits of
              None \<Rightarrow> None
            | Some un \<Rightarrow>
                if neg then (if un > 2 ^ 63 then None else Some (- int un))
                else (if un \<ge> 2 ^ 63 then None else Some (int un))))"

text \<open>The loop \<^verbatim>\<open>for scanner.Scan()\<close> on the lines not yet read.\<close>

fun scanLines :: "string \<Rightarrow> string list \<Rightarrow> FileInfo list \<Rightarrow> FileInfo list" where
  "scanLines mp [] infos = infos"
| "scanLines mp (line # rest) infos =
     (let cfsPath = strings_TrimSpace (strings_Replace1 line mp)
      in scanLines mp rest (infos @ [\<lparr>path_FileInfo = cfsPath, inoID = 0, isAbs = False\<rparr>]))"

text \<open>\<^verbatim>\<open>readIndexFileByLine\<close>.  The file is given by what the operating system and the
  scanner answer: the error of \<^verbatim>\<open>os.OpenFile\<close>, the lines \<^verbatim>\<open>scanner.Text()\<close> returns
  one after the other, and \<^verbatim>\<open>scanner.Err()\<close> at the end.  \<^verbatim>\<open>make\<close> panics on a negative
  capacity; the limits of memory are not modelled.\<close>

definition readIndexFileByLine ::
  "string \<Rightarrow> error option \<Rightarrow> string list \<Rightarrow> error option \<Rightarrow> IndexInfo \<Rightarrow>
   (error option \<times> IndexInfo) outcome" where
  "readIndexFileByLine mp openErr lines scanErr indexInfo =
     (case openErr of
        Some err \<Rightarrow> Returns (Some err, indexInfo)
      | None \<Rightarrow>
          (let infoNum = (case ParseInt (datasetCnt indexInfo) of None \<Rightarrow> 0 | Some n \<Rightarrow> n)
           in if infoNum < 0 then Panics
              else Returns (scanErr, indexInfo\<lparr>fileInfoMap := scanLines mp lines []\<rparr>)))"

subsection \<open>\<^verbatim>\<open>getFileInode\<close>: the store into \<^verbatim>\<open>dcacheMap\<close>\<close>

text \<open>The branch of \<^verbatim>\<open>getFileInode\<close> taken when the listing of the directory has the
  file name: \<^verbatim>\<open>dcacheMap.Load(parIno)\<close>; on a miss, \<^verbatim>\<open>LoadOrStore\<close> of a new
  \<^verbatim>\<open>IndexDentryInfo\<close> with a cache valid for the minutes of the index (60 minutes by
  default); then \<^verbatim>\<open>dcache.Put(fileName, ino)\<close>.  \<open>now\<close> is the reading of the clock in
  \<^verbatim>\<open>NewDentryCache\<close>.  The lookup of the directory and its listing are not modelled.\<close>

definition storeIndexDentry ::
  "int \<Rightarrow> IndexInfo \<Rightarrow> inode \<Rightarrow> string \<Rightarrow> inode \<Rightarrow> PrefetchManager \<Rightarrow> PrefetchManager" where
  "storeIndexDentry now indexInfo parIno fileName ino pm =
     (let v =
            (case dcacheMap pm parIno of
               Some v \<Rightarrow> v
             | None \<Rightarrow>
                 \<lparr>path_IndexDentryInfo = path indexInfo,
                  dcache = NewDentryCache
                    (if 0 < sint (validMinute indexInfo) then sint (minutes (validMinute indexInfo))
                     else DefaultIndexDentryExpiration) now\<rparr>)
      in pm\<lparr>dcacheMap := (dcacheMap pm)(parIno \<mapsto> v\<lparr>dcache := Put fileName ino (dcache v)\<rparr>)\<rparr>)"

section \<open>The janitor: \<^verbatim>\<open>cleanExpiredIndexInfo\<close>\<close>

text \<open>The three callbacks of the case \<^verbatim>\<open><-t.C\<close>.  A callback gets the value
  that \<^verbatim>\<open>Range\<close> loaded for the key, tests it, reading the clock (\<open>clock key\<close>), and
  then calls \<^verbatim>\<open>Delete(key)\<close> on the map.  The test and the \<^verbatim>\<open>Delete\<close> are two steps:
  the test reads the loaded value, the \<^verbatim>\<open>Delete\<close> is a call of its own on the shared
  map and removes whatever is stored under the key when it runs.  \<open>deleteIndex\<close>,
  \<open>deleteDcache\<close> and \<open>deleteLookupDcache\<close> are the three calls of \<^verbatim>\<open>Delete\<close>.  In a
  callback below, \<open>indexInfo\<close> (\<open>v\<close>, \<open>dc\<close>) is the loaded value and \<open>pm\<close> the manager
  at the time of the \<^verbatim>\<open>Delete\<close>.\<close>

definition deleteIndex :: "string \<Rightarrow> PrefetchManager \<Rightarrow> PrefetchManager" where
  "deleteIndex key pm = pm\<lparr>indexFileInfoMap := (indexFileInfoMap pm)(key := None)\<rparr>"

definition deleteDcache :: "inode \<Rightarrow> PrefetchManager \<Rightarrow> PrefetchManager" where
  "deleteDcache key pm = pm\<lparr>dcacheMap := (dcacheMap pm)(key := None)\<rparr>"

definition deleteLookupDcache :: "inode \<Rightarrow> PrefetchManager \<Rightarrow> PrefetchManager" where
  "deleteLookupDcache key pm = pm\<lparr>lookupDcache := (lookupDcache pm)(key := None)\<rparr>"

definition cleanIndex ::
  "(string \<Rightarrow> int) \<Rightarrow> string \<Rightarrow> IndexInfo \<Rightarrow> PrefetchManager \<Rightarrow> PrefetchManager" where
  "cleanIndex clock key indexInfo pm =
     (if ttl indexInfo > 0 \<and> Unix (clock key) > ttl indexInfo then deleteIndex key pm else pm)"

definition cleanDcache ::
  "(inode \<Rightarrow> int) \<Rightarrow> inode \<Rightarrow> IndexDentryInfo \<Rightarrow> PrefetchManager \<Rightarrow> PrefetchManager" where
  "cleanDcache clock key v pm =
     (if IsExpired (clock key) (dcache v) then deleteDcache key pm else pm)"

definition cleanLookupDcache ::
  "(inode \<Rightarrow> int) \<Rightarrow> inode \<Rightarrow> DentryCache \<Rightarrow> PrefetchManager \<Rightarrow> PrefetchManager" where
  "cleanLookupDcache clock key dc pm =
     (if IsExpired (clock key) dc then deleteLookupDcache key pm else pm)"

text \<open>One firing of the minute ticker: the order of each \<^verbatim>\<open>Range\<close> and the readings of
  the clock.  \<open>sweepExpired\<close> is the sweep run on its own: every callback gets the value
  stored when it is called, and nothing else writes the maps between its test and its
  \<^verbatim>\<open>Delete\<close>.\<close>

record sweep =
  indexOrder :: "string list"
  indexClock :: "string \<Rightarrow> int"
  dcacheOrder :: "inode list"
  dcacheClock :: "inode \<Rightarrow> int"
  lookupOrder :: "inode list"
  lookupClock :: "inode \<Rightarrow> int"

definition sweepExpired :: "sweep \<Rightarrow> PrefetchManager \<Rightarrow> PrefetchManager" where
  "sweepExpired sw pm =
     sync_Range (lookupOrder sw) lookupDcache (cleanLookupDcache (lookupClock sw))
       (sync_Range (dcacheOrder sw) dcacheMap (cleanDcache (dcacheClock sw))
          (sync_Range (indexOrder sw) indexFileInfoMap (cleanIndex (indexClock sw)) pm))"

text \<open>The case \<^verbatim>\<open><-t1.C\<close>: both counters are swapped to zero; the hit rate is only
  logged.\<close>

definition publishMetrics :: "PrefetchManager \<Rightarrow> PrefetchManager outcome" where
  "publishMetrics pm =
     (case metrics pm of
        None \<Rightarrow> Panics
      | Some m \<Rightarrow> Returns (pm\<lparr>metrics := Some (m\<lparr>totalReadCount := 0, appReadCount := 0\<rparr>)\<rparr>))"

text \<open>The loop of the janitor over what its \<^verbatim>\<open>select\<close> receives, until the close
  signal.\<close>

datatype janitorEvent = MinuteTick sweep | SecondTick | CloseSignal

fun cleanExpiredIndexInfo :: "janitorEvent list \<Rightarrow> PrefetchManager \<Rightarrow> PrefetchManager outcome" where
  "cleanExpiredIndexInfo [] pm = Returns pm"
| "cleanExpiredIndexInfo (CloseSignal # evs) pm = Returns pm"
| "cleanExpiredIndexInfo (SecondTick # evs) pm =
     (case publishMetrics pm of Panics \<Rightarrow> Panics | Returns pm1 \<Rightarrow> cleanExpiredIndexInfo evs pm1)"
| "cleanExpiredIndexInfo (MinuteTick sw # evs) pm = cleanExpiredIndexInfo evs (sweepExpired sw pm)"

section \<open>Methods with a nil guard\<close>

text \<open>The receiver is a pointer: \<open>None\<close> is the nil manager.  Each of these methods
  returns at once on a nil receiver.\<close>

text \<open>\<^verbatim>\<open>GetDentryCache\<close> makes three calls on shared data: \<^verbatim>\<open>dcacheMap.Load\<close>, then
  \<^verbatim>\<open>IsExpired\<close> on the cache it loaded, then \<^verbatim>\<open>dcacheMap.Delete\<close>.  \<open>checkDentryCache\<close>
  is the first two, \<open>dropDentryCache\<close> the third.\<close>

datatype cacheCheck = NotStored | Live DentryCache | Stale

definition checkDentryCache :: "int \<Rightarrow> PrefetchManager \<Rightarrow> inode \<Rightarrow> cacheCheck" where
  "checkDentryCache now pm parIno =
     (case dcacheMap pm parIno of
        None \<Rightarrow> NotStored
      | Some v \<Rightarrow> if \<not> IsExpired now (dcache v) then Live (dcache v) else Stale)"

definition dropDentryCache :: "PrefetchManager \<Rightarrow> inode \<Rightarrow> PrefetchManager" where
  "dropDentryCache pm parIno = pm\<lparr>dcacheMap := (dcacheMap pm)(parIno := None)\<rparr>"

definition GetDentryCache ::
  "int \<Rightarrow> PrefetchManager option \<Rightarrow> inode \<Rightarrow> DentryCache option \<times> PrefetchManager option" where
  "GetDentryCache now pManager parIno =
     (case pManager of
        None \<Rightarrow> (None, None)
      | Some pm \<Rightarrow>
          (case checkDentryCache now pm parIno of
             NotStored \<Rightarrow> (None, Some pm)
           | Live dc \<Rightarrow> (Some dc, Some pm)
           | Stale \<Rightarrow> (None, Some (dropDentryCache pm parIno))))"

definition PutAppPid :: "PrefetchManager option \<Rightarrow> 32 word \<Rightarrow> PrefetchManager option" where
  "PutAppPid pManager pid =
     (case pManager of
        None \<Rightarrow> None
      | Some pm \<Rightarrow>
          (case appPid pm pid of
             None \<Rightarrow> Some (pm\<lparr>appPid := (appPid pm)(pid \<mapsto> True)\<rparr>)
           | Some b \<Rightarrow> Some pm))"

definition DeleteAppPid :: "PrefetchManager option \<Rightarrow> 32 word \<Rightarrow> PrefetchManager option" where
  "DeleteAppPid pManager pid =
     (case pManager of
        None \<Rightarrow> None
      | Some pm \<Rightarrow> Some (pm\<lparr>appPid := (appPid pm)(pid := None)\<rparr>))"

definition ContainsAppPid :: "PrefetchManager option \<Rightarrow> 32 word \<Rightarrow> bool" where
  "ContainsAppPid pManager pid =
     (case pManager of None \<Rightarrow> False | Some pm \<Rightarrow> appPid pm pid \<noteq> None)"

text \<open>\<^verbatim>\<open>atomic.AddUint64(&pManager.metrics.totalReadCount, 1)\<close>: \<^verbatim>\<open>metrics\<close> is a
  pointer, which the constructor sets.\<close>

definition AddTotalReadCount :: "PrefetchManager option \<Rightarrow> PrefetchManager option outcome" where
  "AddTotalReadCount pManager =
     (case pManager of
        None \<Rightarrow> Returns None
      | Some pm \<Rightarrow>
          (case metrics pm of
             None \<Rightarrow> Panics
           | Some m \<Rightarrow>
               Returns (Some (pm\<lparr>metrics := Some (m\<lparr>totalReadCount := totalReadCount m + 1\<rparr>)\<rparr>))))"

definition AddAppReadCount :: "PrefetchManager option \<Rightarrow> PrefetchManager option outcome" where
  "AddAppReadCount pManager =
     (case pManager of
        None \<Rightarrow> Returns None
      | Some pm \<Rightarrow>
          (case metrics pm of
             None \<Rightarrow> Panics
           | Some m \<Rightarrow>
               Returns (Some (pm\<lparr>metrics := Some (m\<lparr>appReadCount := appReadCount m + 1\<rparr>)\<rparr>))))"

section \<open>The scenario of the spec\<close>

text \<open>The end-to-end scenarios of the spec (section 8): the mount point \<^verbatim>\<open>/mnt/v\<close>; the
  file system has \<^verbatim>\<open>d1\<close> (inode 100) under the root, and \<^verbatim>\<open>f1\<close> (inode 101) and
  \<^verbatim>\<open>f2\<close> (inode 102) under \<^verbatim>\<open>d1\<close>; the content of \<^verbatim>\<open>f1\<close> is \<^verbatim>\<open>abc\<close>.  Reading
  \<^verbatim>\<open>f2\<close> fails.  The pool hands out buffers filled with \<open>0xFF\<close>.\<close>

definition scenarioFS :: externals where
  "scenarioFS =
     \<lparr>RootIno = 1,
      ec_lookup = (\<lambda>ino name.
         if ino = 1 \<and> name = ''d1'' then Inr 100
         else if ino = 100 \<and> name = ''f1'' then Inr 101
         else if ino = 100 \<and> name = ''f2'' then Inr 102
         else Inl (ClientError 2)),
      ec_OpenStream = (\<lambda>ino. None),
      ec_FileSize = (\<lambda>ino. if ino = 101 \<or> ino = 102 then (3, True) else (0, False)),
      ec_Read = (\<lambda>ino off n.
         if ino = 101 then (take n (bytesOf ''abc''), None) else ([], Some (ClientError 5))),
      os_Stat = (\<lambda>p. if p = ''/idx/a.txt'' then None else Some OsNotExist),
      poolBlock = (\<lambda>n. replicate n 255)\<rparr>"

definition scenarioPM :: PrefetchManager where
  "scenarioPM =
     \<lparr>mountPoint = ''/mnt/v'', indexFileInfoMap = Map.empty, indexInfoChan = [],
      filePathChan = [], downloadChan = [], lookupDcache = Map.empty, appPid = Map.empty,
      dcacheMap = Map.empty, metrics = Some \<lparr>appReadCount = 0, totalReadCount = 0\<rparr>,
      isClosed = False\<rparr>"

definition scenarioWorld :: world where
  "scenarioWorld =
     \<lparr>respWriters = (\<lambda>r. \<lparr>Wg = 0, Writer = []\<rparr>), blocksOut = 0, openStreams = (\<lambda>ino. 0),
      lookups = [], wgCalls = []\<rparr>"

text \<open>The job of \<^verbatim>\<open>DownloadPath(p, rw)\<close>, with the response writer at address 0.\<close>

definition jobFor :: "string \<Rightarrow> DownloadFileInfo" where
  "jobFor p = \<lparr>absPath = p, fileInfo = None, resp = 0\<rparr>"

text \<open>Scenarios 1 and 2 of the spec.  At \<open>t0\<close> the index \<^verbatim>\<open>/idx/a.txt\<close> of dataset
  \<^verbatim>\<open>2\<close> was added with a TTL of 5 minutes and loaded: the registry holds its two files,
  and \<^verbatim>\<open>dcacheMap[100]\<close> holds \<^verbatim>\<open>{f1: 101, f2: 102}\<close> for that index.  Two minutes
  later the index is added again with a TTL of 10 minutes (\<open>refreshClock\<close>).\<close>

definition t0 :: int where
  "t0 = 1700000000000000000"

definition scenarioIndex :: IndexInfo where
  "scenarioIndex =
     \<lparr>path = ''/idx/a.txt'', datasetCnt = ''2'', ttl = Unix t0 + 300, validMinute = 5,
      fileInfoMap = [\<lparr>path_FileInfo = ''/d1/f1'', inoID = 101, isAbs = False\<rparr>,
                     \<lparr>path_FileInfo = ''/d1/f2'', inoID = 102, isAbs = False\<rparr>]\<rparr>"

definition scenarioDentries :: IndexDentryInfo where
  "scenarioDentries =
     \<lparr>path_IndexDentryInfo = ''/idx/a.txt'',
      dcache = \<lparr>entries = [''f1'' \<mapsto> 101, ''f2'' \<mapsto> 102], expiration = t0 + 5 * Minute,
                validDuration = 5 * Minute\<rparr>\<rparr>"

definition indexedPM :: PrefetchManager where
  "indexedPM =
     scenarioPM\<lparr>indexFileInfoMap := [''/idx/a.txt'' \<mapsto> scenarioIndex],
                dcacheMap := [100 \<mapsto> scenarioDentries]\<rparr>"

definition refreshClock :: addIndexClock where
  "refreshClock =
     \<lparr>tNew = t0 + 2 * Minute, tCheck = t0 + 2 * Minute, tSet = t0 + 2 * Minute,
      tReset = (\<lambda>key. t0 + 2 * Minute), rangeOrder = [100]\<rparr>"

text \<open>The readings of the clock when, six minutes after \<open>t0\<close>, the index is added once
  more, with a TTL of 0.\<close>

definition readdClock :: addIndexClock where
  "readdClock =
     \<lparr>tNew = t0 + 6 * Minute, tCheck = t0 + 6 * Minute, tSet = t0 + 6 * Minute,
      tReset = (\<lambda>key. t0 + 6 * Minute), rangeOrder = [100]\<rparr>"

text \<open>A firing of the minute ticker of the janitor that visits the index and the dentry
  cache of the scenario, with every reading of the clock equal to \<open>now\<close>.\<close>

definition scenarioSweep :: "int \<Rightarrow> sweep" where
  "scenarioSweep now =
     \<lparr>indexOrder = [''/idx/a.txt''], indexClock = (\<lambda>key. now),
      dcacheOrder = [100], dcacheClock = (\<lambda>key. now),
      lookupOrder = [], lookupClock = (\<lambda>key. now)\<rparr>"

text \<open>The value of a sequence of bytes read as a big-endian unsigned number.\<close>

definition bigEndianValue :: "byte list \<Rightarrow> nat" where
  "bigEndianValue bs = foldl (\<lambda>acc b. 256 * acc + unat b) 0 bs"

text \<open>The record claimed by the spec (4.6, step 5, and section 6): 16 + len(p) + n bytes;
  bytes [0..8) are the big-endian len(p), bytes [8..8+len(p)) are p, the next 8 bytes are
  the big-endian n, and the rest are the first n bytes of the content.\<close>

definition framed :: "byte list \<Rightarrow> string \<Rightarrow> nat \<Rightarrow> byte list \<Rightarrow> bool" where
  "framed r p n content =
     (length r = 16 + length p + n \<and>
      bigEndianValue (take 8 r) = length p \<and>
      take (length p) (drop 8 r) = bytesOf p \<and>
      bigEndianValue (take 8 (drop (8 + length p) r)) = n \<and>
      drop (16 + length p) r = take n content)"

text \<open>\<open>old\<close> occurs in \<open>s\<close> at the offset \<open>i\<close>.\<close>

definition occursAt :: "string \<Rightarrow> string \<Rightarrow> nat \<Rightarrow> bool" where
  "occursAt old s i = (i + length old \<le> length s \<and> take (length old) (drop i s) = old)"

text \<open>The \<^verbatim>\<open>FileInfo\<close> that \<^verbatim>\<open>readIndexFileByLine\<close> appends for a line.\<close>

definition lineInfo :: "string \<Rightarrow> string \<Rightarrow> FileInfo" where
  "lineInfo mp line =
     \<lparr>path_FileInfo = strings_TrimSpace (strings_Replace1 line mp), inoID = 0, isAbs = False\<rparr>"

text \<open>What one visit of the \<^verbatim>\<open>Range\<close> in \<^verbatim>\<open>resetExistedIndexInfo\<close> does to the entry
  it visits.\<close>

definition resetEntry ::
  "(inode \<Rightarrow> int) \<Rightarrow> string \<Rightarrow> int \<Rightarrow> inode \<Rightarrow> IndexDentryInfo \<Rightarrow> IndexDentryInfo" where
  "resetEntry clock op dv k e =
     (if path_IndexDentryInfo e = op
      then e\<lparr>dcache := ResetExpiration dv (clock k) (dcache e)\<rparr> else e)"

text \<open>Two worlds that differ at most in the recorded calls of \<^verbatim>\<open>ec.lookup\<close>.\<close>

definition sameButLookups :: "world \<Rightarrow> world \<Rightarrow> bool" where
  "sameButLookups w w' =
     (respWriters w' = respWriters w \<and> blocksOut w' = blocksOut w \<and>
      openStreams w' = openStreams w \<and> wgCalls w' = wgCalls w)"

chapter \<open>Properties\<close>

section \<open>Strings and bytes\<close>

lemma Split_not_Nil: "strings_Split s c \<noteq> []"
  by (induction s) (auto split: list.splits)

lemma Split_no_sep: "d \<in> set (strings_Split s c) \<Longrightarrow> c \<notin> set d"
proof (induction s arbitrary: d)
  case Nil
  then show ?case by simp
next
  case (Cons a s)
  show ?case
  proof (cases "a = c")
    case True
    with Cons show ?thesis by auto
  next
    case False
    obtain w ws where sp: "strings_Split s c = w # ws"
      using Split_not_Nil [of s c] by (cases "strings_Split s c") auto
    with False Cons.prems have "d = a # w \<or> d \<in> set ws" by simp
    then show ?thesis
    proof
      assume "d = a # w"
      moreover have "c \<notin> set w" using Cons.IH [of w] sp by simp
      ultimately show ?thesis using False by auto
    next
      assume "d \<in> set ws"
      then show ?thesis using Cons.IH [of d] sp by simp
    qed
  qed
qed


lemma copyInto_exact:
  "hi \<le> length b \<Longrightarrow> lo \<le> hi \<Longrightarrow> length src = hi - lo \<Longrightarrow>
   copyInto b lo hi src = take lo b @ src @ drop hi b"
  by (simp add: copyInto_def)

lemma length_copyInto:
  "hi \<le> length b \<Longrightarrow> lo \<le> hi \<Longrightarrow> length (copyInto b lo hi src) = length b"
  by (simp add: copyInto_def min_def)

lemma length_PutUint64: "length (PutUint64 v) = 8"
  by (simp add: PutUint64_def)

lemma length_bytesOf: "length (bytesOf s) = length s"
  by (simp add: bytesOf_def)

lemma frameRecord_layout:
  assumes buf: "8 + length p + 8 + n \<le> length buf" and n: "n \<le> length content"
  shows "frameRecord buf p content n =
         PutUint64 (of_nat (length p)) @ bytesOf p @ PutUint64 (of_nat n) @ take n content"
proof -
  let ?L = "length p"
  let ?h = "PutUint64 (of_nat ?L)"
  let ?k = "PutUint64 (of_nat n)"
  define b1 where "b1 = copyInto buf 0 8 ?h"
  define b2 where "b2 = copyInto b1 8 (8 + ?L) (bytesOf p)"
  define b3 where "b3 = copyInto b2 (8 + ?L) (16 + ?L) ?k"
  define b4 where "b4 = copyInto b3 (16 + ?L) (8 + ?L + 8 + n) (take n content)"
  have e1: "b1 = ?h @ drop 8 buf"
    unfolding b1_def using buf by (simp add: copyInto_exact length_PutUint64)
  have e2: "b2 = ?h @ bytesOf p @ drop (8 + ?L) buf"
    unfolding b2_def using buf
    by (subst copyInto_exact) (simp_all add: e1 length_PutUint64 length_bytesOf add.commute)
  have e3: "b3 = ?h @ bytesOf p @ ?k @ drop (16 + ?L) buf"
    unfolding b3_def using buf
    by (subst copyInto_exact) (simp_all add: e2 length_PutUint64 length_bytesOf add.commute)
  have e4: "b4 = ?h @ bytesOf p @ ?k @ take n content @ drop (16 + ?L + n) buf"
    unfolding b4_def using buf n
    by (subst copyInto_exact) (simp_all add: e3 length_PutUint64 length_bytesOf add.commute min_def)
  have "frameRecord buf p content n = take (8 + ?L + 8 + n) b4"
    by (simp add: frameRecord_def Let_def b4_def b3_def b2_def b1_def)
  also have "\<dots> = ?h @ bytesOf p @ ?k @ take n content"
    using n by (simp add: e4 length_PutUint64 length_bytesOf min_def)
  finally show ?thesis .
qed


lemma unat_byte: "unat (ucast (drop_bit k (v::64 word)) :: 8 word) = (unat v div 2 ^ k) mod 256"
proof -
  have "unat (drop_bit k v) = unat v div 2 ^ k"
    by (subst unat_drop_bit_eq) (simp add: drop_bit_eq_div)
  then show ?thesis
    by (simp add: unsigned_ucast_eq take_bit_eq_mod)
qed

lemma div_step: "256 * (x div (2 ^ k * 256)) + (x div 2 ^ k) mod 256 = (x::nat) div 2 ^ k"
proof -
  have "x div (2 ^ k * 256) = (x div 2 ^ k) div 256"
    by (simp add: div_mult2_eq)
  then show ?thesis by simp
qed

lemma bigEndianValue_PutUint64: "bigEndianValue (PutUint64 v) = unat v"
proof -
  define x where "x = unat v"
  have lt: "x < 2 ^ 64" unfolding x_def using unsigned_less [of v, where ?'a = nat] by simp
  have top: "(x div 2 ^ 56) mod 256 = x div 2 ^ 56"
    using lt by (simp add: less_mult_imp_div_less)
  have s48: "256 * (x div 2 ^ 56) + (x div 2 ^ 48) mod 256 = x div 2 ^ 48"
    using div_step [of x 48] by simp
  have s40: "256 * (x div 2 ^ 48) + (x div 2 ^ 40) mod 256 = x div 2 ^ 40"
    using div_step [of x 40] by simp
  have s32: "256 * (x div 2 ^ 40) + (x div 2 ^ 32) mod 256 = x div 2 ^ 32"
    using div_step [of x 32] by simp
  have s24: "256 * (x div 2 ^ 32) + (x div 2 ^ 24) mod 256 = x div 2 ^ 24"
    using div_step [of x 24] by simp
  have s16: "256 * (x div 2 ^ 24) + (x div 2 ^ 16) mod 256 = x div 2 ^ 16"
    using div_step [of x 16] by simp
  have s8: "256 * (x div 2 ^ 16) + (x div 2 ^ 8) mod 256 = x div 2 ^ 8"
    using div_step [of x 8] by simp
  have s0: "256 * (x div 2 ^ 8) + x mod 256 = x"
    using div_step [of x 0] by simp
  have bytes: "PutUint64 v = map of_nat
      [(x div 2 ^ 56) mod 256, (x div 2 ^ 48) mod 256, (x div 2 ^ 40) mod 256,
       (x div 2 ^ 32) mod 256, (x div 2 ^ 24) mod 256, (x div 2 ^ 16) mod 256,
       (x div 2 ^ 8) mod 256, x mod 256]"
    unfolding PutUint64_def x_def
    using unat_byte [of 56 v] unat_byte [of 48 v] unat_byte [of 40 v] unat_byte [of 32 v]
      unat_byte [of 24 v] unat_byte [of 16 v] unat_byte [of 8 v] unat_byte [of 0 v]
    by (simp add: word_unat_eq_iff unat_of_nat)
  have "bigEndianValue (PutUint64 v) =
        256 * (256 * (256 * (256 * (256 * (256 * (256 * ((x div 2 ^ 56) mod 256)
          + (x div 2 ^ 48) mod 256) + (x div 2 ^ 40) mod 256) + (x div 2 ^ 32) mod 256)
          + (x div 2 ^ 24) mod 256) + (x div 2 ^ 16) mod 256) + (x div 2 ^ 8) mod 256)
          + x mod 256"
    unfolding bytes bigEndianValue_def
    by (simp add: unat_of_nat del: mult_numeral_left_semiring_numeral distrib_left_numeral)
  also have "\<dots> = x"
    by (simp only: top s48 s40 s32 s24 s16 s8 s0)
  finally show ?thesis by (simp add: x_def)
qed

section \<open>Evaluating the scenario\<close>

lemma scenarioFS_simps:
  "RootIno scenarioFS = 1"
  "ec_lookup scenarioFS ino name =
     (if ino = 1 \<and> name = ''d1'' then Inr 100
      else if ino = 100 \<and> name = ''f1'' then Inr 101
      else if ino = 100 \<and> name = ''f2'' then Inr 102
      else Inl (ClientError 2))"
  "ec_OpenStream scenarioFS ino = None"
  "ec_FileSize scenarioFS ino = (if ino = 101 \<or> ino = 102 then (3, True) else (0, False))"
  "ec_Read scenarioFS ino off n =
     (if ino = 101 then (take n (bytesOf ''abc''), None) else ([], Some (ClientError 5)))"
  "os_Stat scenarioFS p = (if p = ''/idx/a.txt'' then None else Some OsNotExist)"
  "poolBlock scenarioFS n = replicate n 255"
  by (simp_all add: scenarioFS_def)

lemmas scenario_defs = scenarioFS_simps scenarioPM_def scenarioWorld_def jobFor_def

lemmas lookup_defs = LookupPathByCache_def strings_HasPrefix_def strings_Replace1_def
  cacheProbe_def cachePut_def recordLookup_def NewDentryCache_def Get_def Put_def
  resolveInode_def enumerate_eq_zip Let_def


section \<open>The path lookup leaves the rest of the world alone\<close>

lemma lookupDirs_frame:
  "lookupDirs ex clock n ds ino pm w = (r, pm', w') \<Longrightarrow> sameButLookups w w'"
proof (induction ds arbitrary: ino pm w)
  case Nil
  then show ?case by (simp add: sameButLookups_def)
next
  case (Cons d ds)
  obtain index dir where d: "d = (index, dir)" by (cases d)
  show ?case
    using Cons.prems Cons.IH unfolding d
    by (auto simp: sameButLookups_def recordLookup_def
             split: if_splits prod.splits option.splits sum.splits)
qed

lemma LookupPathByCache_frame:
  "LookupPathByCache ex clock p pm w = (r, pm', w') \<Longrightarrow> sameButLookups w w'"
  unfolding LookupPathByCache_def
  by (auto simp: Let_def sameButLookups_def split: if_splits dest: lookupDirs_frame)

lemma resolveInode_frame:
  "resolveInode ex clock dInfo pm w = (r, pm', w') \<Longrightarrow> sameButLookups w w'"
  unfolding resolveInode_def
  by (auto simp: sameButLookups_def split: option.splits if_splits dest: LookupPathByCache_frame)



section \<open>C1: the framed record of a download\<close>

lemma framed_concat:
  assumes p: "length p < 2 ^ 64" and n: "n < 2 ^ 64" and c: "n \<le> length content"
  shows "framed (PutUint64 (of_nat (length p)) @ bytesOf p @ PutUint64 (of_nat n) @ take n content)
           p n content"
proof -
  have vp: "bigEndianValue (PutUint64 (of_nat (length p))) = length p"
    using p by (simp add: bigEndianValue_PutUint64 unat_of_nat)
  have vn: "bigEndianValue (PutUint64 (of_nat n)) = n"
    using n by (simp add: bigEndianValue_PutUint64 unat_of_nat)
  show ?thesis
    unfolding framed_def using c
    by (simp add: length_PutUint64 length_bytesOf vp vn min_def)
qed

lemma readStream_success:
  assumes sz: "ec_FileSize ex ino = (fileSize, True)"
    and rd: "ec_Read ex ino 0 fileSize = (got, None)"
    and n: "0 < min (length got) fileSize"
  shows "\<exists>content. readStream ex ino w =
           (None, content, min (length got) fileSize, w\<lparr>blocksOut := blocksOut w + 1\<rparr>) \<and>
         take (min (length got) fileSize) content = take fileSize got \<and>
         0 < length content"
proof -
  define buf where "buf = poolBlock ex fileSize @ replicate (fileSize - length (poolBlock ex fileSize)) 0"
  have len: "fileSize \<le> length buf" by (simp add: buf_def)
  define content where "content = copyInto buf 0 fileSize (take fileSize got)"
  have pos: "0 < fileSize" using n by simp
  have rs: "readStream ex ino w =
           (None, content, min (length got) fileSize, w\<lparr>blocksOut := blocksOut w + 1\<rparr>)"
    using sz rd pos
    by (simp add: readStream_def GetBlockBuf_def Let_def content_def buf_def min.commute)
  have tk: "take (min (length got) fileSize) content = take fileSize got"
    using len by (simp add: content_def copyInto_def min_def)
  have "length content = length buf"
    unfolding content_def using len by (simp add: length_copyInto)
  with len pos have "0 < length content" by (cases buf) auto
  with rs tk show ?thesis by blast
qed

lemma Writer_writeResponse:
  assumes "0 < n"
  shows "Writer (respWriters (writeResponse ex dInfo None content n w) (resp dInfo)) =
         Writer (respWriters w (resp dInfo)) @
         frameRecord (fst (GetBlockBuf ex (8 + length (absPath dInfo) + 8 + n) w))
           (absPath dInfo) content n"
  using assms
  by (simp add: writeResponse_def Wg_Done_def Wg_Add_def resp_write_def PutBlockBuf_def
      GetBlockBuf_def Let_def split: prod.splits)

lemma ReadData_record:
  assumes res: "resolveInode ex clock dInfo pm w = (Inr ino, pm1, w1)"
    and op: "ec_OpenStream ex ino = None"
    and sz: "ec_FileSize ex ino = (fileSize, True)"
    and rd: "ec_Read ex ino 0 fileSize = (got, None)"
    and n: "0 < min (length got) fileSize"
  shows "\<exists>w'. ReadData ex clock dInfo pm w = (None, pm1, w') \<and>
           Writer (respWriters w' (resp dInfo)) =
             Writer (respWriters w (resp dInfo)) @
             (PutUint64 (of_nat (length (absPath dInfo))) @ bytesOf (absPath dInfo) @
              PutUint64 (of_nat (min (length got) fileSize)) @
              take (min (length got) fileSize) got)"
proof -
  let ?n = "min (length got) fileSize"
  let ?p = "absPath dInfo"
  let ?ws = "CloseStream ino (streamOpened ino w1\<lparr>blocksOut := blocksOut (streamOpened ino w1) + 1\<rparr>)"
  obtain content where rs: "readStream ex ino (streamOpened ino w1) =
        (None, content, ?n, (streamOpened ino w1)\<lparr>blocksOut := blocksOut (streamOpened ino w1) + 1\<rparr>)"
    and tk: "take ?n content = take fileSize got" and pos: "0 < length content"
    using readStream_success [OF sz rd n, of "streamOpened ino w1"] by blast
  define w' where "w' = writeResponse ex dInfo None content ?n ?ws"
  have rdd: "ReadData ex clock dInfo pm w = (None, pm1, w')"
    by (simp add: ReadData_def res op rs w'_def)
  have same: "respWriters w1 = respWriters w"
    using resolveInode_frame [OF res] by (simp add: sameButLookups_def)
  define buf where "buf = fst (GetBlockBuf ex (8 + length ?p + 8 + ?n) ?ws)"
  have blen: "8 + length ?p + 8 + ?n \<le> length buf"
    by (simp add: buf_def GetBlockBuf_def)
  have clen: "?n \<le> length content"
  proof -
    have "length (take ?n content) = ?n"
      unfolding tk by (simp add: min.commute)
    then show ?thesis by simp
  qed
  have "Writer (respWriters w' (resp dInfo)) =
        Writer (respWriters ?ws (resp dInfo)) @ frameRecord buf ?p content ?n"
    unfolding w'_def buf_def using Writer_writeResponse [OF n] by simp
  also have "Writer (respWriters ?ws (resp dInfo)) = Writer (respWriters w (resp dInfo))"
    by (simp add: CloseStream_def streamOpened_def same)
  also have "frameRecord buf ?p content ?n =
        PutUint64 (of_nat (length ?p)) @ bytesOf ?p @ PutUint64 (of_nat ?n) @ take ?n content"
    by (rule frameRecord_layout [OF blen clen])
  also have "take ?n content = take ?n got"
    unfolding tk by (simp add: min_def)
  finally show ?thesis using rdd by blast
qed

lemma ReadData_record_framed:
  assumes res: "fst (resolveInode ex clock dInfo pm w) = Inr ino"
    and op: "ec_OpenStream ex ino = None"
    and sz: "ec_FileSize ex ino = (fileSize, True)"
    and rd: "ec_Read ex ino 0 fileSize = (got, None)"
    and n: "0 < min (length got) fileSize"
    and lp: "length (absPath dInfo) < 2 ^ 63" and lf: "fileSize < 2 ^ 63"
  shows "\<exists>r. fst (ReadData ex clock dInfo pm w) = None \<and>
           Writer (respWriters (snd (snd (ReadData ex clock dInfo pm w))) (resp dInfo)) =
             Writer (respWriters w (resp dInfo)) @ r \<and>
           r = PutUint64 (of_nat (length (absPath dInfo))) @ bytesOf (absPath dInfo) @
               PutUint64 (of_nat (min (length got) fileSize)) @
               take (min (length got) fileSize) got \<and>
           framed r (absPath dInfo) (min (length got) fileSize) got"
proof -
  obtain pm1 w1 where res': "resolveInode ex clock dInfo pm w = (Inr ino, pm1, w1)"
    using res by (cases "resolveInode ex clock dInfo pm w") auto
  obtain w' where rdd: "ReadData ex clock dInfo pm w = (None, pm1, w')"
    and wr: "Writer (respWriters w' (resp dInfo)) =
           Writer (respWriters w (resp dInfo)) @
           (PutUint64 (of_nat (length (absPath dInfo))) @ bytesOf (absPath dInfo) @
            PutUint64 (of_nat (min (length got) fileSize)) @
            take (min (length got) fileSize) got)"
    using ReadData_record [OF res' op sz rd n] by blast
  have p64: "length (absPath dInfo) < 2 ^ 64" using lp by simp
  have n64: "min (length got) fileSize < 2 ^ 64" using lf by simp
  have "framed (PutUint64 (of_nat (length (absPath dInfo))) @ bytesOf (absPath dInfo) @
            PutUint64 (of_nat (min (length got) fileSize)) @
            take (min (length got) fileSize) got)
          (absPath dInfo) (min (length got) fileSize) got"
    by (rule framed_concat [OF p64 n64]) simp
  with rdd wr show ?thesis by simp
qed

text \<open>Scenario 4 of the spec: the download of \<^verbatim>\<open>/mnt/v/d1/f1\<close>, whose content is
  \<^verbatim>\<open>abc\<close>.\<close>

lemma scenario_download_f1:
  "Writer (respWriters (snd (snd (ReadData scenarioFS clock (jobFor ''/mnt/v/d1/f1'')
       scenarioPM scenarioWorld))) 0) =
     [0, 0, 0, 0, 0, 0, 0, 0x0C] @ bytesOf ''/mnt/v/d1/f1'' @
     [0, 0, 0, 0, 0, 0, 0, 0x03] @ bytesOf ''abc''"
proof -
  have m: "min (length (bytesOf ''abc'')) 3 = 3" by (simp add: length_bytesOf)
  have res0: "fst (resolveInode scenarioFS clock (jobFor ''/mnt/v/d1/f1'') scenarioPM scenarioWorld)
      = Inr 101"
    by (simp add: scenario_defs lookup_defs)
  have op0: "ec_OpenStream scenarioFS 101 = None" by (simp add: scenarioFS_simps)
  have sz0: "ec_FileSize scenarioFS 101 = (3, True)" by (simp add: scenarioFS_simps)
  have rd0: "ec_Read scenarioFS 101 0 3 = (bytesOf ''abc'', None)"
    by (simp add: scenarioFS_simps length_bytesOf)
  have n0: "0 < min (length (bytesOf ''abc'')) 3" unfolding m by simp
  have lp0: "length (absPath (jobFor ''/mnt/v/d1/f1'')) < 2 ^ 63" by (simp add: jobFor_def)
  have lf0: "(3::nat) < 2 ^ 63" by simp
  obtain r where
    w0: "Writer (respWriters (snd (snd (ReadData scenarioFS clock (jobFor ''/mnt/v/d1/f1'')
            scenarioPM scenarioWorld))) (resp (jobFor ''/mnt/v/d1/f1''))) =
         Writer (respWriters scenarioWorld (resp (jobFor ''/mnt/v/d1/f1''))) @ r"
    and r0: "r = PutUint64 (of_nat (length (absPath (jobFor ''/mnt/v/d1/f1'')))) @
               bytesOf (absPath (jobFor ''/mnt/v/d1/f1'')) @
               PutUint64 (of_nat (min (length (bytesOf ''abc'')) 3)) @
               take (min (length (bytesOf ''abc'')) 3) (bytesOf ''abc'')"
    using ReadData_record_framed [OF res0 op0 sz0 rd0 n0 lp0 lf0] by blast
  have r1: "r = [0, 0, 0, 0, 0, 0, 0, 0x0C] @ bytesOf ''/mnt/v/d1/f1'' @
     [0, 0, 0, 0, 0, 0, 0, 0x03] @ bytesOf ''abc''"
    unfolding r0 m by (simp add: jobFor_def PutUint64_def length_bytesOf)
  show ?thesis
    using w0 unfolding r1 by (simp add: jobFor_def scenarioWorld_def)
qed

text \<open>
  Claim C1.  For every download job whose read succeeds with \<open>n > 0\<close> bytes for a file
  at the absolute path \<open>p\<close>, \<^verbatim>\<open>ReadData\<close> returns no error and appends to the response
  writer of the job exactly one record \<open>r\<close> of \<open>16 + len(p) + n\<close> bytes: bytes
  \<open>[0..8)\<close> are the big-endian \<open>len(p)\<close>, bytes \<open>[8..8+len(p))\<close> are the bytes of
  \<open>p\<close>, the next eight bytes are the big-endian \<open>n\<close>, and the remaining \<open>n\<close> bytes
  are the first \<open>n\<close> bytes of the content (predicate \<open>framed\<close>).  The lengths are Go
  \<^verbatim>\<open>int\<close>s, hence below \<open>2^63\<close>.  In particular, for \<^verbatim>\<open>/mnt/v/d1/f1\<close> with the
  content \<^verbatim>\<open>abc\<close> the record is
  \<^verbatim>\<open>00 00 00 00 00 00 00 0C "/mnt/v/d1/f1" 00 00 00 00 00 00 00 03 "abc"\<close>.  These are
  16 + 12 + 3 = 31 bytes; the claim counts 40.
\<close>

theorem C1_download_record_layout:
  "(\<forall>ex clock dInfo pm w ino fileSize got.
      fst (resolveInode ex clock dInfo pm w) = Inr ino \<and>
      ec_OpenStream ex ino = None \<and>
      ec_FileSize ex ino = (fileSize, True) \<and>
      ec_Read ex ino 0 fileSize = (got, None) \<and>
      0 < min (length got) fileSize \<and>
      length (absPath dInfo) < 2 ^ 63 \<and> fileSize < 2 ^ 63 \<longrightarrow>
      (\<exists>r. fst (ReadData ex clock dInfo pm w) = None \<and>
           Writer (respWriters (snd (snd (ReadData ex clock dInfo pm w))) (resp dInfo)) =
             Writer (respWriters w (resp dInfo)) @ r \<and>
           r = PutUint64 (of_nat (length (absPath dInfo))) @ bytesOf (absPath dInfo) @
               PutUint64 (of_nat (min (length got) fileSize)) @
               take (min (length got) fileSize) got \<and>
           framed r (absPath dInfo) (min (length got) fileSize) got)) \<and>
   Writer (respWriters (snd (snd (ReadData scenarioFS clock (jobFor ''/mnt/v/d1/f1'')
       scenarioPM scenarioWorld))) 0) =
     [0, 0, 0, 0, 0, 0, 0, 0x0C] @ bytesOf ''/mnt/v/d1/f1'' @
     [0, 0, 0, 0, 0, 0, 0, 0x03] @ bytesOf ''abc'' \<and>
   length (Writer (respWriters (snd (snd (ReadData scenarioFS clock (jobFor ''/mnt/v/d1/f1'')
       scenarioPM scenarioWorld))) 0)) = 31"
proof (intro conjI allI impI)
  fix ex clock dInfo pm w ino fileSize got
  assume "fst (resolveInode ex clock dInfo pm w) = Inr ino \<and>
      ec_OpenStream ex ino = None \<and>
      ec_FileSize ex ino = (fileSize, True) \<and>
      ec_Read ex ino 0 fileSize = (got, None) \<and>
      0 < min (length got) fileSize \<and>
      length (absPath dInfo) < 2 ^ 63 \<and> fileSize < 2 ^ 63"
  then show "\<exists>r. fst (ReadData ex clock dInfo pm w) = None \<and>
           Writer (respWriters (snd (snd (ReadData ex clock dInfo pm w))) (resp dInfo)) =
             Writer (respWriters w (resp dInfo)) @ r \<and>
           r = PutUint64 (of_nat (length (absPath dInfo))) @ bytesOf (absPath dInfo) @
               PutUint64 (of_nat (min (length got) fileSize)) @
               take (min (length got) fileSize) got \<and>
           framed r (absPath dInfo) (min (length got) fileSize) got"
    using ReadData_record_framed [of ex clock dInfo pm w ino fileSize got] by blast
next
  show "Writer (respWriters (snd (snd (ReadData scenarioFS clock (jobFor ''/mnt/v/d1/f1'')
       scenarioPM scenarioWorld))) 0) =
     [0, 0, 0, 0, 0, 0, 0, 0x0C] @ bytesOf ''/mnt/v/d1/f1'' @
     [0, 0, 0, 0, 0, 0, 0, 0x03] @ bytesOf ''abc''"
    by (rule scenario_download_f1)
next
  show "length (Writer (respWriters (snd (snd (ReadData scenarioFS clock
       (jobFor ''/mnt/v/d1/f1'') scenarioPM scenarioWorld))) 0)) = 31"
    unfolding scenario_download_f1 by (simp add: length_bytesOf)
qed

theorem C1_download_record_layout_witness:
  "fst (resolveInode scenarioFS (\<lambda>ino. 0) (jobFor ''/mnt/v/d1/f1'') scenarioPM scenarioWorld)
     = Inr 101 \<and>
   ec_OpenStream scenarioFS 101 = None \<and>
   ec_FileSize scenarioFS 101 = (3, True) \<and>
   ec_Read scenarioFS 101 0 3 = (bytesOf ''abc'', None) \<and>
   fst (ReadData scenarioFS (\<lambda>ino. 0) (jobFor ''/mnt/v/d1/f1'') scenarioPM scenarioWorld) = None \<and>
   framed
     (Writer (respWriters (snd (snd (ReadData scenarioFS (\<lambda>ino. 0) (jobFor ''/mnt/v/d1/f1'')
        scenarioPM scenarioWorld))) 0))
     ''/mnt/v/d1/f1'' 3 (bytesOf ''abc'')"
proof -
  let ?job = "jobFor ''/mnt/v/d1/f1''"
  have m: "min (length (bytesOf ''abc'')) 3 = 3" by (simp add: length_bytesOf)
  have res0: "fst (resolveInode scenarioFS (\<lambda>ino. 0) ?job scenarioPM scenarioWorld) = Inr 101"
    by (simp add: scenario_defs lookup_defs)
  have op0: "ec_OpenStream scenarioFS 101 = None" by (simp add: scenarioFS_simps)
  have sz0: "ec_FileSize scenarioFS 101 = (3, True)" by (simp add: scenarioFS_simps)
  have rd0: "ec_Read scenarioFS 101 0 3 = (bytesOf ''abc'', None)"
    by (simp add: scenarioFS_simps length_bytesOf)
  have n0: "0 < min (length (bytesOf ''abc'')) 3" unfolding m by simp
  have lp0: "length (absPath ?job) < 2 ^ 63" by (simp add: jobFor_def)
  have lf0: "(3::nat) < 2 ^ 63" by simp
  have hyps: "fst (resolveInode scenarioFS (\<lambda>ino. 0) ?job scenarioPM scenarioWorld) = Inr 101 \<and>
      ec_OpenStream scenarioFS 101 = None \<and>
      ec_FileSize scenarioFS 101 = (3, True) \<and>
      ec_Read scenarioFS 101 0 3 = (bytesOf ''abc'', None) \<and>
      0 < min (length (bytesOf ''abc'')) 3 \<and>
      length (absPath ?job) < 2 ^ 63 \<and> (3::nat) < 2 ^ 63"
    using res0 op0 sz0 rd0 n0 lp0 lf0 by blast
  from C1_download_record_layout [of "\<lambda>ino. 0", THEN conjunct1, rule_format, OF hyps]
  obtain r where
    ok: "fst (ReadData scenarioFS (\<lambda>ino. 0) ?job scenarioPM scenarioWorld) = None"
    and wr: "Writer (respWriters (snd (snd (ReadData scenarioFS (\<lambda>ino. 0) ?job
        scenarioPM scenarioWorld))) (resp ?job)) =
      Writer (respWriters scenarioWorld (resp ?job)) @ r"
    and fr: "framed r (absPath ?job) (min (length (bytesOf ''abc'')) 3) (bytesOf ''abc'')"
    by blast
  have r: "Writer (respWriters (snd (snd (ReadData scenarioFS (\<lambda>ino. 0) ?job
        scenarioPM scenarioWorld))) 0) = r"
    using wr by (simp add: jobFor_def scenarioWorld_def)
  have p: "absPath ?job = ''/mnt/v/d1/f1''" by (simp add: jobFor_def)
  from fr have "framed r ''/mnt/v/d1/f1'' 3 (bytesOf ''abc'')"
    unfolding m p .
  with res0 op0 sz0 rd0 ok show ?thesis unfolding r by blast
qed

text \<open>The claim as stated fails in its last number: the record of the scenario has 31
  bytes, not 40.\<close>

theorem C1_record_is_not_40_bytes:
  "length (Writer (respWriters (snd (snd (ReadData scenarioFS (\<lambda>ino. 0)
     (jobFor ''/mnt/v/d1/f1'') scenarioPM scenarioWorld))) 0)) \<noteq> 40"
  unfolding scenario_download_f1 by (simp add: length_bytesOf)

section \<open>C2: the wait group of a download job\<close>

lemma readStream_frame:
  "readStream ex ino w = (e, c, n, w') \<Longrightarrow>
   respWriters w' = respWriters w \<and> wgCalls w' = wgCalls w \<and>
   openStreams w' = openStreams w \<and> lookups w' = lookups w"
  by (auto simp: readStream_def GetBlockBuf_def Let_def split: prod.splits if_splits option.splits)

lemma writeResponse_wgCalls:
  "wgCalls (writeResponse ex dInfo err content n w) = wgCalls w @ [(resp dInfo, - 1)]"
  by (simp add: writeResponse_def Wg_Done_def Wg_Add_def resp_write_def PutBlockBuf_def
      GetBlockBuf_def Let_def split: prod.splits)

lemma writeResponse_Wg:
  "Wg (respWriters (writeResponse ex dInfo err content n w) r) =
   Wg (respWriters w r) - (if r = resp dInfo then 1 else 0)"
  by (simp add: writeResponse_def Wg_Done_def Wg_Add_def resp_write_def PutBlockBuf_def
      GetBlockBuf_def Let_def split: prod.splits)

lemma writeResponse_openStreams:
  "openStreams (writeResponse ex dInfo err content n w) = openStreams w"
  by (simp add: writeResponse_def Wg_Done_def Wg_Add_def resp_write_def PutBlockBuf_def
      GetBlockBuf_def Let_def split: prod.splits)

text \<open>The shape of the result of \<^verbatim>\<open>ReadData\<close>: the deferred function runs last, on a
  world that has the wait groups, the calls on them and the open streams of the start.\<close>

lemma ReadData_ends_with_writeResponse:
  "\<exists>err content n w2. snd (snd (ReadData ex clock dInfo pm w)) =
      writeResponse ex dInfo err content n w2 \<and>
      respWriters w2 = respWriters w \<and> wgCalls w2 = wgCalls w \<and>
      openStreams w2 = openStreams w"
proof -
  obtain r pm1 w1 where res: "resolveInode ex clock dInfo pm w = (r, pm1, w1)"
    by (cases "resolveInode ex clock dInfo pm w") auto
  have f1: "respWriters w1 = respWriters w" "wgCalls w1 = wgCalls w"
    "openStreams w1 = openStreams w"
    using resolveInode_frame [OF res] by (simp_all add: sameButLookups_def)
  show ?thesis
  proof (cases r)
    case (Inl e)
    then show ?thesis using res f1 by (auto simp: ReadData_def)
  next
    case (Inr ino)
    show ?thesis
    proof (cases "ec_OpenStream ex ino")
      case (Some e)
      then show ?thesis using res f1 Inr by (auto simp: ReadData_def)
    next
      case None
      obtain e c n w2 where rs: "readStream ex ino (streamOpened ino w1) = (e, c, n, w2)"
        by (cases "readStream ex ino (streamOpened ino w1)") auto
      have f2: "respWriters w2 = respWriters w" "wgCalls w2 = wgCalls w"
        "openStreams w2 = (openStreams w)(ino := openStreams w ino + 1)"
        using readStream_frame [OF rs] f1 by (simp_all add: streamOpened_def)
      have "snd (snd (ReadData ex clock dInfo pm w)) =
          writeResponse ex dInfo e c n (CloseStream ino w2)"
        using res Inr None rs by (simp add: ReadData_def)
      moreover have "respWriters (CloseStream ino w2) = respWriters w"
        "wgCalls (CloseStream ino w2) = wgCalls w"
        "openStreams (CloseStream ino w2) = openStreams w"
        using f2 by (auto simp: CloseStream_def)
      ultimately show ?thesis by blast
    qed
  qed
qed

lemma ReadData_wgCalls:
  "wgCalls (snd (snd (ReadData ex clock dInfo pm w))) = wgCalls w @ [(resp dInfo, - 1)]"
  using ReadData_ends_with_writeResponse [of ex clock dInfo pm w]
  by (auto simp: writeResponse_wgCalls)

lemma ReadData_Wg:
  "Wg (respWriters (snd (snd (ReadData ex clock dInfo pm w))) r) =
   Wg (respWriters w r) - (if r = resp dInfo then 1 else 0)"
  using ReadData_ends_with_writeResponse [of ex clock dInfo pm w]
  by (auto simp: writeResponse_Wg)

lemma ReadData_openStreams:
  "openStreams (snd (snd (ReadData ex clock dInfo pm w))) = openStreams w"
  using ReadData_ends_with_writeResponse [of ex clock dInfo pm w]
  by (auto simp: writeResponse_openStreams)

lemma drainDownloads_wgCalls:
  "wgCalls (drainDownloads ds w) = wgCalls w @ map (\<lambda>d. (resp d, - 1)) ds"
  by (induction ds arbitrary: w) (simp_all add: Wg_Done_def Wg_Add_def)

lemma drainDownloads_Wg:
  "Wg (respWriters (drainDownloads ds w) r) =
   Wg (respWriters w r) - int (length (filter (\<lambda>d. resp d = r) ds))"
  by (induction ds arbitrary: w) (simp_all add: Wg_Done_def Wg_Add_def)


lemma lookupDirs_downloadChan:
  "lookupDirs ex clock n ds ino pm w = (r, pm', w') \<Longrightarrow> downloadChan pm' = downloadChan pm"
proof (induction ds arbitrary: ino pm w)
  case Nil
  then show ?case by simp
next
  case (Cons d ds)
  obtain index dir where d: "d = (index, dir)" by (cases d)
  show ?case
    using Cons.prems Cons.IH unfolding d
    by (auto simp: cacheProbe_def cachePut_def Let_def
             split: if_splits prod.splits option.splits sum.splits)
qed

lemma ReadData_downloadChan:
  "downloadChan (fst (snd (ReadData ex clock dInfo pm w))) = downloadChan pm"
proof -
  obtain r pm1 w1 where res: "resolveInode ex clock dInfo pm w = (r, pm1, w1)"
    by (cases "resolveInode ex clock dInfo pm w") auto
  have "downloadChan pm1 = downloadChan pm"
    using res
    by (auto simp: resolveInode_def LookupPathByCache_def Let_def
             split: option.splits if_splits dest: lookupDirs_downloadChan)
  then show ?thesis
    using res by (auto simp: ReadData_def split: sum.splits option.splits prod.splits)
qed

lemma settled_queueStep: "settled r (queueStep ex clock ev s) = settled r s"
proof -
  obtain pm w where s: "s = (pm, w)" by (cases s)
  show ?thesis
  proof (cases ev)
    case (Enqueue dInfo)
    then show ?thesis
      unfolding s by (simp add: settled_def putDownloadChan_def Wg_Add_def)
  next
    case Handle
    show ?thesis
    proof (cases "downloadChan pm")
      case Nil
      then show ?thesis unfolding s Handle by (simp add: workerDownload_def)
    next
      case (Cons dInfo rest)
      let ?pm = "pm\<lparr>downloadChan := rest\<rparr>"
      obtain err pm1 w1 where rd: "ReadData ex clock dInfo ?pm w = (err, pm1, w1)"
        by (cases "ReadData ex clock dInfo ?pm w") auto
      have q: "downloadChan pm1 = rest"
        using ReadData_downloadChan [of ex clock dInfo ?pm w] rd by simp
      have g: "Wg (respWriters w1 r) = Wg (respWriters w r) - (if r = resp dInfo then 1 else 0)"
        using ReadData_Wg [of ex clock dInfo ?pm w r] rd by simp
      show ?thesis
        unfolding s Handle using Cons rd q g
        by (simp add: workerDownload_def settled_def)
    qed
  next
    case Shutdown
    then show ?thesis
      unfolding s by (simp add: Close_def clearDownloadChan_def settled_def drainDownloads_Wg)
  qed
qed

lemma settled_run: "settled r (fold (queueStep ex clock) evs s) = settled r s"
  by (induction evs arbitrary: s) (simp_all add: settled_queueStep)

lemma Shutdown_empties_queue:
  "downloadChan (fst (queueStep ex clock Shutdown s)) = []"
  by (cases s) (simp add: Close_def clearDownloadChan_def)

text \<open>
  Claim C2.  For every download job: an enqueue that returns no error (the manager is not
  closed) appends the job to the download queue and calls \<^verbatim>\<open>Wg.Add(1)\<close> on the wait
  group of its response writer, once; an enqueue on a closed manager returns the error
  and changes nothing; every run of the handler \<^verbatim>\<open>ReadData\<close>, whatever the file system
  answers and whatever the handler returns, calls \<^verbatim>\<open>Wg.Done\<close> on that wait group
  exactly once; and the drain of \<^verbatim>\<open>clearDownloadChan\<close> empties the queue and calls
  \<^verbatim>\<open>Wg.Done\<close> exactly once for every job it discards.  Hence, along every sequence of
  enqueues, handler runs and shutdowns, the counter of each wait group less the number
  of its jobs that wait in the queue (\<open>settled\<close>) never changes.
\<close>

theorem C2_wait_group_conservation:
  "(\<not> isClosed pm \<longrightarrow>
      fst (putDownloadChan dInfo pm w) = None \<and>
      downloadChan (fst (snd (putDownloadChan dInfo pm w))) = downloadChan pm @ [dInfo] \<and>
      wgCalls (snd (snd (putDownloadChan dInfo pm w))) = wgCalls w @ [(resp dInfo, 1)] \<and>
      Wg (respWriters (snd (snd (putDownloadChan dInfo pm w))) (resp dInfo)) =
        Wg (respWriters w (resp dInfo)) + 1) \<and>
   (isClosed pm \<longrightarrow> putDownloadChan dInfo pm w = (Some ThreadsClosed, pm, w)) \<and>
   wgCalls (snd (snd (ReadData ex clock dInfo pm w))) = wgCalls w @ [(resp dInfo, - 1)] \<and>
   Wg (respWriters (snd (snd (ReadData ex clock dInfo pm w))) (resp dInfo)) =
     Wg (respWriters w (resp dInfo)) - 1 \<and>
   wgCalls (snd (clearDownloadChan pm w)) =
     wgCalls w @ map (\<lambda>d. (resp d, - 1)) (downloadChan pm) \<and>
   (\<forall>r. Wg (respWriters (snd (clearDownloadChan pm w)) r) =
     Wg (respWriters w r) - int (length (filter (\<lambda>d. resp d = r) (downloadChan pm)))) \<and>
   downloadChan (fst (clearDownloadChan pm w)) = [] \<and>
   (\<forall>r. settled r (fold (queueStep ex clock) evs (pm, w)) = settled r (pm, w))"
proof (intro conjI impI allI)
  assume open_: "\<not> isClosed pm"
  then show "fst (putDownloadChan dInfo pm w) = None"
    by (simp add: putDownloadChan_def)
  from open_ show "downloadChan (fst (snd (putDownloadChan dInfo pm w))) = downloadChan pm @ [dInfo]"
    by (simp add: putDownloadChan_def)
  from open_ show "wgCalls (snd (snd (putDownloadChan dInfo pm w))) = wgCalls w @ [(resp dInfo, 1)]"
    by (simp add: putDownloadChan_def Wg_Add_def)
  from open_ show "Wg (respWriters (snd (snd (putDownloadChan dInfo pm w))) (resp dInfo)) =
        Wg (respWriters w (resp dInfo)) + 1"
    by (simp add: putDownloadChan_def Wg_Add_def)
next
  assume "isClosed pm"
  then show "putDownloadChan dInfo pm w = (Some ThreadsClosed, pm, w)"
    by (simp add: putDownloadChan_def)
next
  show "wgCalls (snd (snd (ReadData ex clock dInfo pm w))) = wgCalls w @ [(resp dInfo, - 1)]"
    by (rule ReadData_wgCalls)
next
  show "Wg (respWriters (snd (snd (ReadData ex clock dInfo pm w))) (resp dInfo)) =
     Wg (respWriters w (resp dInfo)) - 1"
    by (simp add: ReadData_Wg)
next
  show "wgCalls (snd (clearDownloadChan pm w)) =
     wgCalls w @ map (\<lambda>d. (resp d, - 1)) (downloadChan pm)"
    by (simp add: clearDownloadChan_def drainDownloads_wgCalls)
next
  fix r
  show "Wg (respWriters (snd (clearDownloadChan pm w)) r) =
     Wg (respWriters w r) - int (length (filter (\<lambda>d. resp d = r) (downloadChan pm)))"
    by (simp add: clearDownloadChan_def drainDownloads_Wg)
next
  show "downloadChan (fst (clearDownloadChan pm w)) = []"
    by (simp add: clearDownloadChan_def)
next
  fix r
  show "settled r (fold (queueStep ex clock) evs (pm, w)) = settled r (pm, w)"
    by (rule settled_run)
qed

text \<open>Scenario 5 of the spec: the job of \<^verbatim>\<open>DownloadPath("/elsewhere/x", rw)\<close> is
  enqueued and handled; then a second job is refused by the closed manager.\<close>

theorem C2_wait_group_conservation_witness:
  "\<not> isClosed scenarioPM \<and>
   fst (putDownloadChan (jobFor ''/elsewhere/x'') scenarioPM scenarioWorld) = None \<and>
   Wg (respWriters (snd (snd (putDownloadChan (jobFor ''/elsewhere/x'') scenarioPM scenarioWorld)))
        0) = 1 \<and>
   Wg (respWriters (snd (snd (ReadData scenarioFS (\<lambda>ino. 0) (jobFor ''/elsewhere/x'') scenarioPM
        (snd (snd (putDownloadChan (jobFor ''/elsewhere/x'') scenarioPM scenarioWorld)))))) 0) = 0 \<and>
   isClosed (scenarioPM\<lparr>isClosed := True\<rparr>) \<and>
   putDownloadChan (jobFor ''/elsewhere/x'') (scenarioPM\<lparr>isClosed := True\<rparr>) scenarioWorld =
     (Some ThreadsClosed, scenarioPM\<lparr>isClosed := True\<rparr>, scenarioWorld) \<and>
   Wg (respWriters (snd (fold (queueStep scenarioFS (\<lambda>ino. 0))
        [Enqueue (jobFor ''/mnt/v/d1/f1''), Enqueue (jobFor ''/mnt/v/d1/f2''),
         Enqueue (jobFor ''/elsewhere/x''), Handle, Shutdown]
        (scenarioPM, scenarioWorld))) 0) = 0"
proof -
  let ?job = "jobFor ''/elsewhere/x''"
  let ?w1 = "snd (snd (putDownloadChan ?job scenarioPM scenarioWorld))"
  have o: "\<not> isClosed scenarioPM" by (simp add: scenarioPM_def)
  have c: "isClosed (scenarioPM\<lparr>isClosed := True\<rparr>)" by simp
  have r: "resp ?job = 0" by (simp add: jobFor_def)
  have w0: "Wg (respWriters scenarioWorld 0) = 0" by (simp add: scenarioWorld_def)
  note a = C2_wait_group_conservation [of scenarioPM ?job scenarioWorld scenarioFS "\<lambda>ino. 0"]
  note b = C2_wait_group_conservation [of scenarioPM ?job ?w1 scenarioFS "\<lambda>ino. 0"]
  note d = C2_wait_group_conservation [of "scenarioPM\<lparr>isClosed := True\<rparr>" ?job scenarioWorld
      scenarioFS "\<lambda>ino. 0"]
  have 1: "fst (putDownloadChan ?job scenarioPM scenarioWorld) = None"
    using a o by blast
  have 2: "Wg (respWriters ?w1 0) = 1"
    using a o r w0 by simp
  have 3: "Wg (respWriters (snd (snd (ReadData scenarioFS (\<lambda>ino. 0) ?job scenarioPM ?w1))) 0) = 0"
    using b r 2 by simp
  have 4: "putDownloadChan ?job (scenarioPM\<lparr>isClosed := True\<rparr>) scenarioWorld =
     (Some ThreadsClosed, scenarioPM\<lparr>isClosed := True\<rparr>, scenarioWorld)"
    using d c by blast
  let ?evs = "[Enqueue (jobFor ''/mnt/v/d1/f1''), Enqueue (jobFor ''/mnt/v/d1/f2''),
         Enqueue (jobFor ''/elsewhere/x''), Handle]"
  let ?s = "fold (queueStep scenarioFS (\<lambda>ino. 0)) (?evs @ [Shutdown]) (scenarioPM, scenarioWorld)"
  have "settled 0 ?s = settled 0 (scenarioPM, scenarioWorld)"
    using C2_wait_group_conservation [of scenarioPM ?job scenarioWorld scenarioFS "\<lambda>ino. 0"
        "?evs @ [Shutdown]"] by blast
  moreover have "settled 0 (scenarioPM, scenarioWorld) = 0"
    by (simp add: settled_def scenarioPM_def scenarioWorld_def)
  moreover have "downloadChan (fst ?s) = []"
    unfolding fold_append by (simp add: Shutdown_empties_queue)
  ultimately have "Wg (respWriters (snd ?s) 0) = 0"
    by (simp add: settled_def)
  then have 5: "Wg (respWriters (snd (fold (queueStep scenarioFS (\<lambda>ino. 0))
        [Enqueue (jobFor ''/mnt/v/d1/f1''), Enqueue (jobFor ''/mnt/v/d1/f2''),
         Enqueue (jobFor ''/elsewhere/x''), Handle, Shutdown]
        (scenarioPM, scenarioWorld))) 0) = 0"
    by simp
  from o 1 2 3 c 4 5 show ?thesis by blast
qed

section \<open>C3: buffers and streams of the download handler\<close>

text \<open>What holds of the claim: on every path of \<^verbatim>\<open>ReadData\<close> a successful
  \<^verbatim>\<open>OpenStream\<close> is followed by \<^verbatim>\<open>CloseStream\<close>, and on the path that writes a record
  both buffers are given back.\<close>

lemma ReadData_closes_every_stream:
  "openStreams (snd (snd (ReadData ex clock dInfo pm w))) = openStreams w"
  by (rule ReadData_openStreams)

lemma writeResponse_blocksOut:
  "blocksOut (writeResponse ex dInfo err content n w) =
   blocksOut w - (if err = None \<and> 0 < n \<and> 0 < length content then 1 else 0)"
  by (simp add: writeResponse_def Wg_Done_def Wg_Add_def resp_write_def PutBlockBuf_def
      GetBlockBuf_def Let_def split: prod.splits)

lemma ReadData_returns_buffers_on_success:
  assumes res: "fst (resolveInode ex clock dInfo pm w) = Inr ino"
    and op: "ec_OpenStream ex ino = None"
    and sz: "ec_FileSize ex ino = (fileSize, True)"
    and rd: "ec_Read ex ino 0 fileSize = (got, None)"
    and n: "0 < min (length got) fileSize"
  shows "blocksOut (snd (snd (ReadData ex clock dInfo pm w))) = blocksOut w"
proof -
  obtain pm1 w1 where res': "resolveInode ex clock dInfo pm w = (Inr ino, pm1, w1)"
    using res by (cases "resolveInode ex clock dInfo pm w") auto
  have b1: "blocksOut w1 = blocksOut w"
    using resolveInode_frame [OF res'] by (simp add: sameButLookups_def)
  obtain content where rs: "readStream ex ino (streamOpened ino w1) =
        (None, content, min (length got) fileSize,
         (streamOpened ino w1)\<lparr>blocksOut := blocksOut (streamOpened ino w1) + 1\<rparr>)"
    and pos: "0 < length content"
    using readStream_success [OF sz rd n, of "streamOpened ino w1"] by blast
  have "snd (snd (ReadData ex clock dInfo pm w)) =
      writeResponse ex dInfo None content (min (length got) fileSize)
        (CloseStream ino ((streamOpened ino w1)\<lparr>blocksOut := blocksOut (streamOpened ino w1) + 1\<rparr>))"
    by (simp add: ReadData_def res' op rs)
  then show ?thesis
    using n pos b1
    by (simp add: writeResponse_blocksOut CloseStream_def streamOpened_def)
qed

text \<open>
  Claim C3, at a failing input.  The job for \<^verbatim>\<open>/mnt/v/d1/f2\<close> in the scenario: the
  inode resolves, the stream opens, the size is 3, the content buffer is acquired, and
  \<^verbatim>\<open>ec.Read\<close> fails.  \<^verbatim>\<open>ReadData\<close> returns the read error, the stream is closed,
  and one buffer of the pool, the content buffer, has not been given back:
  \<^verbatim>\<open>PutBlockBuf(content)\<close> stands inside the branch \<^verbatim>\<open>err == nil && readSize > 0\<close> of the
  deferred function.
\<close>

theorem C3_read_failure_keeps_content_buffer:
  "fst (ReadData scenarioFS (\<lambda>ino. 0) (jobFor ''/mnt/v/d1/f2'') scenarioPM scenarioWorld) =
     Some (ReadErr (ClientError 5) 3 0) \<and>
   blocksOut scenarioWorld = 0 \<and>
   blocksOut (snd (snd (ReadData scenarioFS (\<lambda>ino. 0) (jobFor ''/mnt/v/d1/f2'') scenarioPM
     scenarioWorld))) = 1 \<and>
   openStreams (snd (snd (ReadData scenarioFS (\<lambda>ino. 0) (jobFor ''/mnt/v/d1/f2'') scenarioPM
     scenarioWorld))) 102 = 0"
proof -
  have res: "resolveInode scenarioFS (\<lambda>ino. 0) (jobFor ''/mnt/v/d1/f2'') scenarioPM scenarioWorld =
      (Inr 102, snd (resolveInode scenarioFS (\<lambda>ino. 0) (jobFor ''/mnt/v/d1/f2'') scenarioPM
        scenarioWorld))"
    by (simp add: scenario_defs lookup_defs)
  obtain pm1 w1 where res': "resolveInode scenarioFS (\<lambda>ino. 0) (jobFor ''/mnt/v/d1/f2'')
      scenarioPM scenarioWorld = (Inr 102, pm1, w1)"
    using res by (metis prod.collapse)
  have b1: "blocksOut w1 = 0" "openStreams w1 = (\<lambda>ino. 0)"
    using resolveInode_frame [OF res'] by (simp_all add: sameButLookups_def scenarioWorld_def)
  have rs: "readStream scenarioFS 102 (streamOpened 102 w1) =
      (Some (ReadErr (ClientError 5) 3 0), replicate 3 255, 0,
       (streamOpened 102 w1)\<lparr>blocksOut := 1\<rparr>)"
    using b1
    by (simp add: scenarioFS_simps readStream_def GetBlockBuf_def Let_def copyInto_def
        streamOpened_def)
  have rd: "ReadData scenarioFS (\<lambda>ino. 0) (jobFor ''/mnt/v/d1/f2'') scenarioPM scenarioWorld =
      (Some (ReadErr (ClientError 5) 3 0), pm1,
       writeResponse scenarioFS (jobFor ''/mnt/v/d1/f2'') (Some (ReadErr (ClientError 5) 3 0))
         (replicate 3 255) 0 (CloseStream 102 ((streamOpened 102 w1)\<lparr>blocksOut := 1\<rparr>)))"
    by (simp add: ReadData_def res' scenarioFS_simps rs)
  have w0: "blocksOut scenarioWorld = 0" by (simp add: scenarioWorld_def)
  show ?thesis
    unfolding rd using b1 w0
    by (simp add: writeResponse_blocksOut writeResponse_openStreams CloseStream_def
        streamOpened_def)
qed

section \<open>The path lookup refines the resolution of the spec\<close>

lemma resolveComponents_single:
  "resolveComponents ex clock [d] ino pm w = resolveLast ex clock d ino pm w"
  by (simp add: resolveComponents_def)

lemma resolveComponents_Cons:
  "ds \<noteq> [] \<Longrightarrow>
   resolveComponents ex clock (d # ds) ino pm w =
     (case cacheProbe (clock ino) ino d pm of
        (Some child, dc, pm1) \<Rightarrow> resolveComponents ex clock ds child pm1 w
      | (None, dc, pm1) \<Rightarrow>
          (case ec_lookup ex ino d of
             Inl err \<Rightarrow> (Inl err, pm1, recordLookup ino d w)
           | Inr child \<Rightarrow>
               resolveComponents ex clock ds child
                 (cachePut ino dc d child pm1) (recordLookup ino d w)))"
  by (simp add: resolveComponents_def split: prod.splits option.splits sum.splits)

lemma lookupDirs_refines:
  "k + length ds = n \<Longrightarrow> ds \<noteq> [] \<Longrightarrow> last ds \<noteq> [] \<Longrightarrow> (\<forall>d \<in> set ds. d \<noteq> ''/'') \<Longrightarrow>
   lookupDirs ex clock n (enumerate k ds) ino pm w =
   resolveComponents ex clock (filter (\<lambda>d. d \<noteq> []) ds) ino pm w"
proof (induction ds arbitrary: k ino pm w)
  case Nil
  then show ?case by simp
next
  case (Cons d ds)
  show ?case
  proof (cases "ds = []")
    case True
    with Cons.prems have d: "d \<noteq> []" "d \<noteq> ''/''" and k: "int k = int n - 1" by auto
    show ?thesis using True d k
      by (simp add: resolveComponents_single resolveLast_def
               split: prod.splits option.splits sum.splits)
  next
    case False
    with Cons.prems have IH: "\<And>ino pm w. lookupDirs ex clock n (enumerate (Suc k) ds) ino pm w =
        resolveComponents ex clock (filter (\<lambda>d. d \<noteq> []) ds) ino pm w"
      using Cons.IH [of "Suc k"] by simp
    have k: "int k \<noteq> int n - 1" using Cons.prems(1) False by (cases ds) auto
    have "last ds \<noteq> []" using Cons.prems(3) False by simp
    then have "last ds \<in> set (filter (\<lambda>d. d \<noteq> []) ds)" using False by simp
    then have fl: "filter (\<lambda>d. d \<noteq> []) ds \<noteq> []"
      by (metis empty_iff empty_set)
    have dslash: "d \<noteq> ''/''" using Cons.prems(4) by simp
    show ?thesis
    proof (cases "d = []")
      case True
      then show ?thesis using IH by simp
    next
      case False
      then show ?thesis using IH k dslash
        by (simp add: resolveComponents_Cons [OF fl] split: prod.splits option.splits sum.splits)
    qed
  qed
qed

lemma LookupPathByCache_refines:
  assumes pre: "strings_HasPrefix p (mountPoint pm)"
    and ne: "strings_Replace1 p (mountPoint pm) \<noteq> []"
    and ns: "strings_Replace1 p (mountPoint pm) \<noteq> ''/''"
    and lst: "last (strings_Split (strings_Replace1 p (mountPoint pm)) CHR ''/'') \<noteq> []"
  shows "LookupPathByCache ex clock p pm w =
         resolveComponents ex clock (components (strings_Replace1 p (mountPoint pm)))
           (RootIno ex) pm w"
proof -
  let ?dirs = "strings_Split (strings_Replace1 p (mountPoint pm)) CHR ''/''"
  have nn: "?dirs \<noteq> []" by (rule Split_not_Nil)
  have nosl: "\<forall>d \<in> set ?dirs. d \<noteq> ''/''"
  proof
    fix d
    assume "d \<in> set ?dirs"
    then have "CHR ''/'' \<notin> set d" by (rule Split_no_sep)
    then show "d \<noteq> ''/''" by auto
  qed
  have "LookupPathByCache ex clock p pm w =
        lookupDirs ex clock (length ?dirs) (enumerate 0 ?dirs) (RootIno ex) pm w"
    using pre ne ns by (simp add: LookupPathByCache_def Let_def)
  also have "\<dots> = resolveComponents ex clock (filter (\<lambda>d. d \<noteq> []) ?dirs) (RootIno ex) pm w"
    by (rule lookupDirs_refines [OF _ nn lst nosl]) simp
  finally show ?thesis by (simp add: components_def)
qed

lemma resolveLast_hit:
  "cachedChild pm ino d = Some c \<Longrightarrow> resolveLast ex clock d ino pm w = (Inr c, pm, w)"
  by (auto simp: resolveLast_def cacheProbe_def cachedChild_def split: option.splits)

lemma resolveLast_miss:
  assumes "cachedChild pm ino d = None"
  shows "fst (resolveLast ex clock d ino pm w) = ec_lookup ex ino d \<and>
         lookups (snd (snd (resolveLast ex clock d ino pm w))) = lookups w @ [(ino, d)] \<and>
         (\<forall>q name. cachedChild (fst (snd (resolveLast ex clock d ino pm w))) q name =
                    cachedChild pm q name)"
  using assms
  by (auto simp: resolveLast_def cacheProbe_def cachedChild_def recordLookup_def Let_def
      NewDentryCache_def Get_def split: option.splits)


lemma resolveInner_miss_caches:
  assumes "cachedChild pm ino d = None" and "ec_lookup ex ino d = Inr child"
  shows "fst (resolveInner ex clock [d] ino pm w) = Inr child \<and>
         lookups (snd (snd (resolveInner ex clock [d] ino pm w))) = lookups w @ [(ino, d)] \<and>
         cachedChild (fst (snd (resolveInner ex clock [d] ino pm w))) ino d = Some child"
  using assms
  by (auto simp: cacheProbe_def cachedChild_def cachePut_def recordLookup_def Let_def
      NewDentryCache_def Get_def Put_def split: option.splits)

lemma resolveInner_hit:
  "cachedChild pm ino d = Some c \<Longrightarrow> resolveInner ex clock [d] ino pm w = (Inr c, pm, w)"
  by (auto simp: cacheProbe_def cachedChild_def split: option.splits)

section \<open>C4: paths that \<^verbatim>\<open>LookupPathByCache\<close> refuses\<close>

text \<open>What holds of the claim: a path that does not begin with the mount point is
  refused with \<^verbatim>\<open>"not cfs path"\<close>, and a path whose remainder is empty or a single
  slash is refused with \<^verbatim>\<open>"not cfs file"\<close>; neither returns an inode nor changes the
  caches.\<close>

lemma LookupPathByCache_outside_mount:
  "\<not> strings_HasPrefix p (mountPoint pm) \<Longrightarrow>
   LookupPathByCache ex clock p pm w = (Inl NotCfsPath, pm, w)"
  by (simp add: LookupPathByCache_def)

lemma LookupPathByCache_mount_itself:
  "strings_HasPrefix p (mountPoint pm) \<Longrightarrow>
   strings_Replace1 p (mountPoint pm) = [] \<or> strings_Replace1 p (mountPoint pm) = ''/'' \<Longrightarrow>
   LookupPathByCache ex clock p pm w = (Inl NotCfsFile, pm, w)"
  by (auto simp: LookupPathByCache_def Let_def)

lemma LookupPathByCache_refusals_are_NotCFS:
  assumes "\<not> strings_HasPrefix p (mountPoint pm) \<or>
           strings_Replace1 p (mountPoint pm) = [] \<or> strings_Replace1 p (mountPoint pm) = ''/''"
  shows "\<exists>e. LookupPathByCache ex clock p pm w = (Inl e, pm, w) \<and> isNotCFS e"
proof (cases "strings_HasPrefix p (mountPoint pm)")
  case True
  with assms show ?thesis
    using LookupPathByCache_mount_itself [of p pm ex clock w] by (auto simp: isNotCFS_def)
next
  case False
  then show ?thesis
    using LookupPathByCache_outside_mount [of p pm ex clock w] by (simp add: isNotCFS_def)
qed

text \<open>
  Claim C4, at a failing input.  With the mount point \<^verbatim>\<open>/mnt/v\<close>, the path
  \<^verbatim>\<open>/mnt/v//\<close> begins with the mount point and its remainder \<^verbatim>\<open>//\<close> has no component
  that is not empty.  The guard of the code compares the remainder with \<^verbatim>\<open>""\<close> and
  \<^verbatim>\<open>"/"\<close> only; the loop skips the three empty elements of the split, and the call
  returns the root inode and no error, without a call of \<^verbatim>\<open>ec.lookup\<close>.
\<close>

theorem C4_slashes_resolve_to_root:
  "strings_HasPrefix ''/mnt/v//'' (mountPoint scenarioPM) \<and>
   strings_Replace1 ''/mnt/v//'' (mountPoint scenarioPM) = ''//'' \<and>
   components ''//'' = [] \<and>
   LookupPathByCache scenarioFS (\<lambda>ino. 0) ''/mnt/v//'' scenarioPM scenarioWorld =
     (Inr (RootIno scenarioFS), scenarioPM, scenarioWorld)"
  by (simp add: scenario_defs lookup_defs components_def)

section \<open>C5: the last component of a path\<close>

text \<open>
  Claim C5, as amended.  For every path that \<^verbatim>\<open>LookupPathByCache\<close> accepts (it begins
  with the mount point and its remainder is neither empty nor a single slash) and that
  does not end in a slash, the call resolves the components as \<open>resolveComponents\<close>
  does: each component, the last one included, is first looked up in \<^verbatim>\<open>lookupDcache\<close>
  at the current inode, and \<^verbatim>\<open>ec.lookup\<close> is called only on a miss.  For a component
  before the last (\<open>resolveInner\<close>), the result of that call is put into the cache.  For
  the last component (\<open>resolveLast\<close>): when its name is cached under the current inode
  the cached inode is returned and \<^verbatim>\<open>ec.lookup\<close> is not called; otherwise the result
  is that of one call of \<^verbatim>\<open>ec.lookup\<close> on the current inode, and no pair is added to
  the cache.
\<close>

theorem C5_last_component_not_cached:
  "(strings_HasPrefix p (mountPoint pm) \<and>
    strings_Replace1 p (mountPoint pm) \<noteq> [] \<and>
    strings_Replace1 p (mountPoint pm) \<noteq> ''/'' \<and>
    last (strings_Split (strings_Replace1 p (mountPoint pm)) CHR ''/'') \<noteq> [] \<longrightarrow>
      LookupPathByCache ex clock p pm w =
        resolveComponents ex clock (components (strings_Replace1 p (mountPoint pm)))
          (RootIno ex) pm w) \<and>
   (cachedChild pm ino d = Some c \<longrightarrow>
      resolveInner ex clock [d] ino pm w = (Inr c, pm, w) \<and>
      resolveLast ex clock d ino pm w = (Inr c, pm, w)) \<and>
   (cachedChild pm ino d = None \<and> ec_lookup ex ino d = Inr child \<longrightarrow>
      fst (resolveInner ex clock [d] ino pm w) = Inr child \<and>
      lookups (snd (snd (resolveInner ex clock [d] ino pm w))) = lookups w @ [(ino, d)] \<and>
      cachedChild (fst (snd (resolveInner ex clock [d] ino pm w))) ino d = Some child) \<and>
   (cachedChild pm ino d = None \<longrightarrow>
      fst (resolveLast ex clock d ino pm w) = ec_lookup ex ino d \<and>
      lookups (snd (snd (resolveLast ex clock d ino pm w))) = lookups w @ [(ino, d)] \<and>
      (\<forall>q name. cachedChild (fst (snd (resolveLast ex clock d ino pm w))) q name =
                 cachedChild pm q name))"
proof (intro conjI impI)
  assume "strings_HasPrefix p (mountPoint pm) \<and>
    strings_Replace1 p (mountPoint pm) \<noteq> [] \<and>
    strings_Replace1 p (mountPoint pm) \<noteq> ''/'' \<and>
    last (strings_Split (strings_Replace1 p (mountPoint pm)) CHR ''/'') \<noteq> []"
  then show "LookupPathByCache ex clock p pm w =
        resolveComponents ex clock (components (strings_Replace1 p (mountPoint pm)))
          (RootIno ex) pm w"
    using LookupPathByCache_refines by blast
next
  assume "cachedChild pm ino d = Some c"
  then show "resolveInner ex clock [d] ino pm w = (Inr c, pm, w)"
    by (rule resolveInner_hit)
next
  assume "cachedChild pm ino d = Some c"
  then show "resolveLast ex clock d ino pm w = (Inr c, pm, w)"
    by (rule resolveLast_hit)
next
  assume a: "cachedChild pm ino d = None \<and> ec_lookup ex ino d = Inr child"
  then have n: "cachedChild pm ino d = None" and l: "ec_lookup ex ino d = Inr child"
    by simp_all
  show "fst (resolveInner ex clock [d] ino pm w) = Inr child"
    using resolveInner_miss_caches [OF n l] by blast
  show "lookups (snd (snd (resolveInner ex clock [d] ino pm w))) = lookups w @ [(ino, d)]"
    using resolveInner_miss_caches [OF n l] by blast
  show "cachedChild (fst (snd (resolveInner ex clock [d] ino pm w))) ino d = Some child"
    using resolveInner_miss_caches [OF n l] by blast
next
  assume n: "cachedChild pm ino d = None"
  show "fst (resolveLast ex clock d ino pm w) = ec_lookup ex ino d"
    using resolveLast_miss [OF n] by blast
  show "lookups (snd (snd (resolveLast ex clock d ino pm w))) = lookups w @ [(ino, d)]"
    using resolveLast_miss [OF n] by blast
  show "\<forall>q name. cachedChild (fst (snd (resolveLast ex clock d ino pm w))) q name =
                 cachedChild pm q name"
    using resolveLast_miss [OF n] by blast
qed

text \<open>Scenario: \<^verbatim>\<open>/mnt/v/d1/f1\<close> on empty caches.  Both components miss; \<^verbatim>\<open>d1\<close> is
  cached under the root afterwards, \<^verbatim>\<open>f1\<close> is not cached under inode 100.\<close>

theorem C5_last_component_not_cached_witness:
  "strings_HasPrefix ''/mnt/v/d1/f1'' (mountPoint scenarioPM) \<and>
   strings_Replace1 ''/mnt/v/d1/f1'' (mountPoint scenarioPM) = ''/d1/f1'' \<and>
   last (strings_Split ''/d1/f1'' CHR ''/'') = ''f1'' \<and>
   components ''/d1/f1'' = [''d1'', ''f1''] \<and>
   LookupPathByCache scenarioFS (\<lambda>ino. 0) ''/mnt/v/d1/f1'' scenarioPM scenarioWorld =
     resolveComponents scenarioFS (\<lambda>ino. 0) [''d1'', ''f1''] 1 scenarioPM scenarioWorld \<and>
   fst (LookupPathByCache scenarioFS (\<lambda>ino. 0) ''/mnt/v/d1/f1'' scenarioPM scenarioWorld) =
     Inr 101 \<and>
   lookups (snd (snd (LookupPathByCache scenarioFS (\<lambda>ino. 0) ''/mnt/v/d1/f1'' scenarioPM
     scenarioWorld))) = [(1, ''d1''), (100, ''f1'')] \<and>
   cachedChild (fst (snd (LookupPathByCache scenarioFS (\<lambda>ino. 0) ''/mnt/v/d1/f1'' scenarioPM
     scenarioWorld))) 1 ''d1'' = Some 100 \<and>
   cachedChild (fst (snd (LookupPathByCache scenarioFS (\<lambda>ino. 0) ''/mnt/v/d1/f1'' scenarioPM
     scenarioWorld))) 100 ''f1'' = None"
proof -
  have pre: "strings_HasPrefix ''/mnt/v/d1/f1'' (mountPoint scenarioPM)"
    by (simp add: scenarioPM_def strings_HasPrefix_def)
  have rem: "strings_Replace1 ''/mnt/v/d1/f1'' (mountPoint scenarioPM) = ''/d1/f1''"
    by (simp add: scenarioPM_def strings_Replace1_def strings_HasPrefix_def)
  have lst: "last (strings_Split ''/d1/f1'' CHR ''/'') = ''f1''" by simp
  have cmp: "components ''/d1/f1'' = [''d1'', ''f1'']" by (simp add: components_def)
  have hyps: "strings_HasPrefix ''/mnt/v/d1/f1'' (mountPoint scenarioPM) \<and>
    strings_Replace1 ''/mnt/v/d1/f1'' (mountPoint scenarioPM) \<noteq> [] \<and>
    strings_Replace1 ''/mnt/v/d1/f1'' (mountPoint scenarioPM) \<noteq> ''/'' \<and>
    last (strings_Split (strings_Replace1 ''/mnt/v/d1/f1'' (mountPoint scenarioPM)) CHR ''/'') \<noteq> []"
    unfolding rem lst using pre by simp
  have eq: "LookupPathByCache scenarioFS (\<lambda>ino. 0) ''/mnt/v/d1/f1'' scenarioPM scenarioWorld =
     resolveComponents scenarioFS (\<lambda>ino. 0) [''d1'', ''f1''] 1 scenarioPM scenarioWorld"
    using C5_last_component_not_cached [of "''/mnt/v/d1/f1''" scenarioPM scenarioFS "\<lambda>ino. 0"
        scenarioWorld, THEN conjunct1, rule_format, OF hyps]
    unfolding rem cmp by (simp add: scenarioFS_simps)
  have ev: "fst (LookupPathByCache scenarioFS (\<lambda>ino. 0) ''/mnt/v/d1/f1'' scenarioPM scenarioWorld) =
       Inr 101"
    "lookups (snd (snd (LookupPathByCache scenarioFS (\<lambda>ino. 0) ''/mnt/v/d1/f1'' scenarioPM
       scenarioWorld))) = [(1, ''d1''), (100, ''f1'')]"
    "cachedChild (fst (snd (LookupPathByCache scenarioFS (\<lambda>ino. 0) ''/mnt/v/d1/f1'' scenarioPM
       scenarioWorld))) 1 ''d1'' = Some 100"
    "cachedChild (fst (snd (LookupPathByCache scenarioFS (\<lambda>ino. 0) ''/mnt/v/d1/f1'' scenarioPM
       scenarioWorld))) 100 ''f1'' = None"
    by (simp_all add: scenario_defs lookup_defs cachedChild_def)
  from pre rem lst cmp eq ev show ?thesis by blast
qed

text \<open>The claim as stated fails.  After \<^verbatim>\<open>/mnt/v/d1/f1\<close> has been resolved, the pair
  for \<^verbatim>\<open>d1\<close> is cached under the root; the path \<^verbatim>\<open>/mnt/v/d1\<close> is accepted, its last
  component is \<^verbatim>\<open>d1\<close>, and it is resolved from the cache: the second call adds no call
  of \<^verbatim>\<open>ec.lookup\<close>.\<close>

theorem C5_cached_last_component_skips_lookup:
  "(case LookupPathByCache scenarioFS (\<lambda>ino. 0) ''/mnt/v/d1/f1'' scenarioPM scenarioWorld of
      (r1, pm1, w1) \<Rightarrow>
        (case LookupPathByCache scenarioFS (\<lambda>ino. 0) ''/mnt/v/d1'' pm1 w1 of
           (r2, pm2, w2) \<Rightarrow>
             r1 = Inr 101 \<and> lookups w1 = [(1, ''d1''), (100, ''f1'')] \<and>
             r2 = Inr 100 \<and> lookups w2 = lookups w1))"
  by (simp add: scenario_defs lookup_defs)

text \<open>The slip left out of the amended claim: the code tells the last component by its
  index in the split, so with a slash at the end of the path the last component is put
  into the cache.\<close>

lemma LookupPathByCache_trailing_slash_caches_last:
  "cachedChild (fst (snd (LookupPathByCache scenarioFS (\<lambda>ino. 0) ''/mnt/v/d1/f1/'' scenarioPM
     scenarioWorld))) 100 ''f1'' = Some 101"
  by (simp add: scenario_defs lookup_defs cachedChild_def)

section \<open>Durations and the sweep of \<^verbatim>\<open>resetExistedIndexInfo\<close>\<close>

lemma sint_minutes:
  assumes "0 \<le> sint m" "sint m \<le> 153722867"
  shows "sint (minutes m) = 60000000000 * sint m"
proof -
  have "sint (minutes m) = signed_take_bit 63 (sint m * 60000000000)"
    by (simp add: minutes_def sint_word_ariths)
  also have "\<dots> = sint m * 60000000000"
    using assms by (simp add: signed_take_bit_int_eq_self)
  finally show ?thesis by simp
qed

lemma Unix_add_minutes: "Unix (t + 60000000000 * k) = Unix t + 60 * k"
proof -
  have "t + 60000000000 * k = t + (60 * k) * 1000000000" by simp
  then show ?thesis unfolding Unix_def by (simp only: div_mult_self3) 
qed

lemma resetDcache_other:
  "indexFileInfoMap (resetDcache clock op dv a v pm) = indexFileInfoMap pm \<and>
   indexInfoChan (resetDcache clock op dv a v pm) = indexInfoChan pm \<and>
   isClosed (resetDcache clock op dv a v pm) = isClosed pm"
  by (simp add: resetDcache_def)

lemma Range_resetDcache_other:
  "indexFileInfoMap (sync_Range ks dcacheMap (resetDcache clock op dv) pm) = indexFileInfoMap pm \<and>
   indexInfoChan (sync_Range ks dcacheMap (resetDcache clock op dv) pm) = indexInfoChan pm \<and>
   isClosed (sync_Range ks dcacheMap (resetDcache clock op dv) pm) = isClosed pm"
proof (induction ks arbitrary: pm)
  case Nil
  then show ?case by simp
next
  case (Cons a ks)
  show ?case
    by (cases "dcacheMap pm a") (simp_all add: Cons.IH resetDcache_other)
qed

lemma resetEntry_idem:
  "resetEntry clock op dv k (resetEntry clock op dv k e) = resetEntry clock op dv k e"
  by (simp add: resetEntry_def ResetExpiration_def)

lemma resetDcache_map:
  "dcacheMap pm a = Some v \<Longrightarrow>
   dcacheMap (resetDcache clock op dv a v pm) = (dcacheMap pm)(a \<mapsto> resetEntry clock op dv a v)"
  by (auto simp: resetDcache_def resetEntry_def)

lemma Range_resetDcache_map:
  "dcacheMap (sync_Range ks dcacheMap (resetDcache clock op dv) pm) k =
     (case dcacheMap pm k of
        None \<Rightarrow> None
      | Some e \<Rightarrow> Some (if k \<in> set ks then resetEntry clock op dv k e else e))"
proof (induction ks arbitrary: pm)
  case Nil
  then show ?case by (simp split: option.splits)
next
  case (Cons a ks)
  show ?case
  proof (cases "dcacheMap pm a")
    case None
    then show ?thesis by (auto simp: Cons.IH split: option.splits)
  next
    case (Some v)
    show ?thesis
      using Some
      by (auto simp: Cons.IH resetDcache_map resetEntry_idem split: option.splits)
  qed
qed


section \<open>C6: adding an index that is registered and not expired\<close>

text \<open>
  Claim C6, as amended.  Let \<^verbatim>\<open>AddIndexFilepath(datasetCnt, path, ttlMinute)\<close> be called
  when the registry, keyed by the paths of its entries, holds an entry \<open>old\<close> under
  \<open>path\<close> that is not expired at the check, and let \<open>ttlMinute\<close> be 0 or positive and
  at most 153722867, so that \<open>ttlMinute\<close> minutes fit a 64-bit \<^verbatim>\<open>time.Duration\<close>.  Then
  the call returns nil; the entry under \<open>path\<close> is \<open>old\<close> with \<open>validMinute = ttlMinute\<close>
  and with \<open>ttl = 0\<close> when \<open>ttlMinute = 0\<close>, \<open>ttl = now + 60 * ttlMinute\<close> seconds
  otherwise, its file list untouched and every other entry unchanged; nothing is put on
  the index-load channel; and \<^verbatim>\<open>ResetExpiration\<close> is applied, with the new duration (60
  minutes when \<open>ttlMinute = 0\<close>), to the cache of exactly the entries of \<^verbatim>\<open>dcacheMap\<close> whose
  path equals \<open>path\<close>.  The \<^verbatim>\<open>Range\<close> is taken to visit every key of the map.
\<close>

theorem C6_refresh_registered_index:
  assumes old: "indexFileInfoMap pm p = Some old"
    and live: "\<not> indexExpired (tCheck c) old"
    and keyed: "registryKeyed pm"
    and visit: "dom (dcacheMap pm) \<subseteq> set (rangeOrder c)"
    and lo: "0 \<le> sint ttlMinute" and hi: "sint ttlMinute \<le> 153722867"
  shows "\<exists>pm'. AddIndexFilepath ex c cnt p ttlMinute pm = (None, pm') \<and>
     indexFileInfoMap pm' =
       (indexFileInfoMap pm)(p \<mapsto>
          old\<lparr>ttl := (if ttlMinute = 0 then 0 else Unix (tSet c) + 60 * sint ttlMinute),
              validMinute := ttlMinute\<rparr>) \<and>
     indexInfoChan pm' = indexInfoChan pm \<and>
     (\<forall>k. dcacheMap pm' k =
        (case dcacheMap pm k of
           None \<Rightarrow> None
         | Some e \<Rightarrow>
             Some (if path_IndexDentryInfo e = p
                   then e\<lparr>dcache := ResetExpiration
                          (if ttlMinute = 0 then DefaultIndexDentryExpiration
                           else sint ttlMinute * Minute)
                          (tReset c k) (dcache e)\<rparr>
                   else e)))"
proof -
  have po: "path old = p" using keyed old by (simp add: registryKeyed_def)
  have nexp: "\<not> (0 < ttl old \<and> ttl old < Unix (tCheck c))"
    using live by (auto simp: indexExpired_def)
  define new_ttl where
    "new_ttl = (if ttlMinute = 0 then 0 else Unix (tSet c) + 60 * sint ttlMinute)"
  define dv where
    "dv = (if ttlMinute = 0 then DefaultIndexDentryExpiration else sint ttlMinute * Minute)"
  define old1 where "old1 = old\<lparr>ttl := new_ttl, validMinute := ttlMinute\<rparr>"
  define pm1 where
    "pm1 = sync_Range (rangeOrder c) dcacheMap (resetDcache (tReset c) p dv) pm"
  have sm: "sint (minutes ttlMinute) = 60000000000 * sint ttlMinute"
    by (rule sint_minutes [OF lo hi])
  have ttl_eq: "ttlMinute \<noteq> 0 \<Longrightarrow>
      Unix (tSet c + sint (minutes ttlMinute)) = Unix (tSet c) + 60 * sint ttlMinute"
    unfolding sm by (rule Unix_add_minutes)
  have dv_eq: "ttlMinute \<noteq> 0 \<Longrightarrow> sint (minutes ttlMinute) = sint ttlMinute * Minute"
    unfolding sm by (simp add: Minute_def)
  have reset: "resetExistedIndexInfo (tCheck c) (tSet c) (tReset c) (rangeOrder c) old new
      ttlMinute pm = (True, old1, pm1)" for new
    using nexp ttl_eq dv_eq
    by (auto simp: resetExistedIndexInfo_def Let_def old1_def pm1_def new_ttl_def dv_def po)
  have add: "AddIndexFilepath ex c cnt p ttlMinute pm =
      (None, pm1\<lparr>indexFileInfoMap := (indexFileInfoMap pm1)(p \<mapsto> old1)\<rparr>)"
    using old by (simp add: AddIndexFilepath_def Let_def reset)
  have other: "indexFileInfoMap pm1 = indexFileInfoMap pm" "indexInfoChan pm1 = indexInfoChan pm"
    unfolding pm1_def using Range_resetDcache_other by blast+
  have dmap: "dcacheMap pm1 k =
        (case dcacheMap pm k of
           None \<Rightarrow> None
         | Some e \<Rightarrow>
             Some (if path_IndexDentryInfo e = p
                   then e\<lparr>dcache := ResetExpiration dv (tReset c k) (dcache e)\<rparr>
                   else e))" for k
  proof (cases "dcacheMap pm k")
    case None
    then show ?thesis by (simp add: pm1_def Range_resetDcache_map)
  next
    case (Some e)
    then have "k \<in> set (rangeOrder c)" using visit by auto
    with Some show ?thesis
      by (simp add: pm1_def Range_resetDcache_map resetEntry_def)
  qed
  show ?thesis
    using other dmap unfolding add old1_def new_ttl_def dv_def
    by simp
qed

lemma AddIndexFilepath_keeps_registryKeyed:
  assumes "registryKeyed pm"
  shows "registryKeyed (snd (AddIndexFilepath ex c cnt p ttlMinute pm))"
proof -
  have ro: "indexFileInfoMap (sync_Range ks dcacheMap (resetDcache clock op dv) pm0) =
      indexFileInfoMap pm0" for ks clock op dv pm0
    using Range_resetDcache_other by blast
  show ?thesis
    using assms
    by (auto simp: AddIndexFilepath_def resetExistedIndexInfo_def statAndEnqueue_def
        putIndexInfoChan_def registryKeyed_def Let_def ro
        split: option.splits if_splits)
qed


text \<open>Scenario 2 of the spec: two minutes after \<open>t0\<close> the index is added again with a
  TTL of 10 minutes.  The entry's \<open>ttl\<close> moves to \<open>t0\<close> + 12 minutes, the file list
  is the old one, no load job is queued, and the expiration of \<^verbatim>\<open>dcacheMap[100]\<close> is 10
  minutes from now.\<close>

theorem C6_refresh_registered_index_witness:
  "indexFileInfoMap indexedPM ''/idx/a.txt'' = Some scenarioIndex \<and>
   \<not> indexExpired (tCheck refreshClock) scenarioIndex \<and>
   registryKeyed indexedPM \<and>
   dom (dcacheMap indexedPM) \<subseteq> set (rangeOrder refreshClock) \<and>
   0 \<le> sint (10 :: int64) \<and> sint (10 :: int64) \<le> 153722867 \<and>
   fst (AddIndexFilepath scenarioFS refreshClock ''2'' ''/idx/a.txt'' 10 indexedPM) = None \<and>
   indexFileInfoMap (snd (AddIndexFilepath scenarioFS refreshClock ''2'' ''/idx/a.txt'' 10
       indexedPM)) ''/idx/a.txt'' =
     Some (scenarioIndex\<lparr>ttl := Unix t0 + 720, validMinute := 10\<rparr>) \<and>
   indexInfoChan (snd (AddIndexFilepath scenarioFS refreshClock ''2'' ''/idx/a.txt'' 10
       indexedPM)) = [] \<and>
   map_option (\<lambda>e. expiration (dcache e))
     (dcacheMap (snd (AddIndexFilepath scenarioFS refreshClock ''2'' ''/idx/a.txt'' 10
       indexedPM)) 100) = Some (t0 + 12 * Minute)"
proof -
  have old: "indexFileInfoMap indexedPM ''/idx/a.txt'' = Some scenarioIndex"
    by (simp add: indexedPM_def)
  have live: "\<not> indexExpired (tCheck refreshClock) scenarioIndex"
    by (simp add: indexExpired_def refreshClock_def scenarioIndex_def Unix_def t0_def Minute_def)
  have keyed: "registryKeyed indexedPM"
    by (simp add: registryKeyed_def indexedPM_def scenarioIndex_def)
  have visit: "dom (dcacheMap indexedPM) \<subseteq> set (rangeOrder refreshClock)"
    by (simp add: indexedPM_def refreshClock_def)
  have lo: "0 \<le> sint (10 :: int64)" and hi: "sint (10 :: int64) \<le> 153722867" by simp_all
  obtain pm' where
    r: "AddIndexFilepath scenarioFS refreshClock ''2'' ''/idx/a.txt'' 10 indexedPM = (None, pm')"
    and m: "indexFileInfoMap pm' =
       (indexFileInfoMap indexedPM)(''/idx/a.txt'' \<mapsto>
          scenarioIndex\<lparr>ttl := (if (10 :: int64) = 0 then 0
                                else Unix (tSet refreshClock) + 60 * sint (10 :: int64)),
              validMinute := 10\<rparr>)"
    and ch: "indexInfoChan pm' = indexInfoChan indexedPM"
    and dm: "\<forall>k. dcacheMap pm' k =
        (case dcacheMap indexedPM k of
           None \<Rightarrow> None
         | Some e \<Rightarrow>
             Some (if path_IndexDentryInfo e = ''/idx/a.txt''
                   then e\<lparr>dcache := ResetExpiration
                          (if (10 :: int64) = 0 then DefaultIndexDentryExpiration
                           else sint (10 :: int64) * Minute)
                          (tReset refreshClock k) (dcache e)\<rparr>
                   else e))"
    using C6_refresh_registered_index [OF old live keyed visit lo hi] by blast
  have 1: "indexFileInfoMap pm' ''/idx/a.txt'' =
      Some (scenarioIndex\<lparr>ttl := Unix t0 + 720, validMinute := 10\<rparr>)"
    unfolding m by (simp add: refreshClock_def Unix_def t0_def Minute_def)
  have 2: "indexInfoChan pm' = []"
    unfolding ch by (simp add: indexedPM_def scenarioPM_def)
  have 3: "map_option (\<lambda>e. expiration (dcache e)) (dcacheMap pm' 100) = Some (t0 + 12 * Minute)"
    using dm [rule_format, of 100]
    by (simp add: indexedPM_def scenarioDentries_def ResetExpiration_def refreshClock_def)
  from old live keyed visit lo hi 1 2 3 show ?thesis unfolding r by simp
qed

text \<open>The claim as stated fails for a TTL whose minutes do not fit a \<^verbatim>\<open>time.Duration\<close>:
  with \<open>ttlMinute = 153722868\<close> the product \<^verbatim>\<open>time.Duration(ttlMinute) * time.Minute\<close>
  wraps around to a negative duration, and the entry's \<open>ttl\<close> is set before the epoch
  instead of to \<open>now + 60 * ttlMinute\<close> seconds.\<close>

theorem C6_ttl_overflow:
  "indexFileInfoMap indexedPM ''/idx/a.txt'' = Some scenarioIndex \<and>
   \<not> indexExpired (tCheck refreshClock) scenarioIndex \<and>
   0 < sint (153722868 :: int64) \<and>
   fst (AddIndexFilepath scenarioFS refreshClock ''2'' ''/idx/a.txt'' 153722868 indexedPM) = None \<and>
   map_option ttl (indexFileInfoMap (snd (AddIndexFilepath scenarioFS refreshClock ''2''
       ''/idx/a.txt'' 153722868 indexedPM)) ''/idx/a.txt'') = Some (- 7523371874) \<and>
   Unix (tSet refreshClock) + 60 * sint (153722868 :: int64) = 10923372200"
  by (simp add: AddIndexFilepath_def resetExistedIndexInfo_def indexedPM_def scenarioPM_def
      scenarioIndex_def scenarioDentries_def refreshClock_def indexExpired_def Unix_def
      t0_def Minute_def minutes_def Let_def resetDcache_def ResetExpiration_def)

section \<open>C7: \<^verbatim>\<open>GetDentryCache\<close> and expired caches\<close>

lemma GetDentryCache_steps:
  "GetDentryCache now (Some pm) parIno =
     (case checkDentryCache now pm parIno of
        NotStored \<Rightarrow> (None, Some pm)
      | Live dc \<Rightarrow> (Some dc, Some pm)
      | Stale \<Rightarrow> (None, Some (dropDentryCache pm parIno)))"
  by (simp add: GetDentryCache_def)

lemma GetDentryCache_returns_live:
  assumes "fst (GetDentryCache now pManager parIno) = Some dc"
  shows "\<not> IsExpired now dc \<and>
         (\<exists>pm v. pManager = Some pm \<and> dcacheMap pm parIno = Some v \<and> dcache v = dc \<and>
            snd (GetDentryCache now pManager parIno) = Some pm)"
  using assms
  by (auto simp: GetDentryCache_def checkDentryCache_def split: option.splits if_splits)

text \<open>
  Claim C7, as amended.  \<^verbatim>\<open>GetDentryCache(p)\<close> returns nil or the cache stored under
  \<open>p\<close>, and a cache it returns was not expired when the call checked it; the map is
  then unchanged.  When the stored cache is found expired, the call deletes the entry of
  \<open>p\<close> and returns nil.  The deletion is a step of its own, after the check
  (\<open>dropDentryCache\<close> after \<open>checkDentryCache\<close>): it removes whatever is stored under
  \<open>p\<close> at that moment, and nothing else.
\<close>

theorem C7_GetDentryCache_returns_live_cache:
  "(fst (GetDentryCache now pManager parIno) = Some dc \<longrightarrow>
      \<not> IsExpired now dc \<and>
      (\<exists>pm v. pManager = Some pm \<and> dcacheMap pm parIno = Some v \<and> dcache v = dc \<and>
         snd (GetDentryCache now pManager parIno) = Some pm)) \<and>
   (dcacheMap pm parIno = Some v \<and> IsExpired now (dcache v) \<longrightarrow>
      checkDentryCache now pm parIno = Stale \<and>
      GetDentryCache now (Some pm) parIno = (None, Some (dropDentryCache pm parIno))) \<and>
   (dcacheMap pm parIno = None \<longrightarrow> GetDentryCache now (Some pm) parIno = (None, Some pm)) \<and>
   dcacheMap (dropDentryCache pm1 parIno) parIno = None \<and>
   (\<forall>q. q \<noteq> parIno \<longrightarrow> dcacheMap (dropDentryCache pm1 parIno) q = dcacheMap pm1 q)"
proof (intro conjI impI allI)
  assume a: "fst (GetDentryCache now pManager parIno) = Some dc"
  show "\<not> IsExpired now dc"
    using GetDentryCache_returns_live [OF a] by blast
  show "\<exists>pm v. pManager = Some pm \<and> dcacheMap pm parIno = Some v \<and> dcache v = dc \<and>
         snd (GetDentryCache now pManager parIno) = Some pm"
    using GetDentryCache_returns_live [OF a] by blast
next
  assume b: "dcacheMap pm parIno = Some v \<and> IsExpired now (dcache v)"
  then show st: "checkDentryCache now pm parIno = Stale"
    by (simp add: checkDentryCache_def)
  show "GetDentryCache now (Some pm) parIno = (None, Some (dropDentryCache pm parIno))"
    by (simp add: GetDentryCache_steps st)
next
  assume "dcacheMap pm parIno = None"
  then show "GetDentryCache now (Some pm) parIno = (None, Some pm)"
    by (simp add: GetDentryCache_def checkDentryCache_def)
next
  show "dcacheMap (dropDentryCache pm1 parIno) parIno = None"
    by (simp add: dropDentryCache_def)
next
  fix q
  assume "q \<noteq> parIno"
  then show "dcacheMap (dropDentryCache pm1 parIno) q = dcacheMap pm1 q"
    by (simp add: dropDentryCache_def)
qed

text \<open>The scenario, six minutes after \<open>t0\<close>: the cache of inode 100, valid for five
  minutes, is found expired and the entry is deleted; one minute earlier the call
  returns the cache.\<close>

theorem C7_GetDentryCache_returns_live_cache_witness:
  "fst (GetDentryCache (t0 + 4 * Minute) (Some indexedPM) 100) = Some (dcache scenarioDentries) \<and>
   \<not> IsExpired (t0 + 4 * Minute) (dcache scenarioDentries) \<and>
   snd (GetDentryCache (t0 + 4 * Minute) (Some indexedPM) 100) = Some indexedPM \<and>
   dcacheMap indexedPM 100 = Some scenarioDentries \<and>
   IsExpired (t0 + 6 * Minute) (dcache scenarioDentries) \<and>
   GetDentryCache (t0 + 6 * Minute) (Some indexedPM) 100 =
     (None, Some (dropDentryCache indexedPM 100)) \<and>
   dcacheMap (dropDentryCache indexedPM 100) 100 = None \<and>
   dcacheMap scenarioPM 100 = None \<and>
   GetDentryCache (t0 + 6 * Minute) (Some scenarioPM) 100 = (None, Some scenarioPM)"
proof -
  have g: "fst (GetDentryCache (t0 + 4 * Minute) (Some indexedPM) 100) =
      Some (dcache scenarioDentries)"
    by (simp add: GetDentryCache_def checkDentryCache_def indexedPM_def IsExpired_def
        scenarioDentries_def Minute_def)
  have s: "dcacheMap indexedPM 100 = Some scenarioDentries" by (simp add: indexedPM_def)
  have e: "IsExpired (t0 + 6 * Minute) (dcache scenarioDentries)"
    by (simp add: IsExpired_def scenarioDentries_def Minute_def)
  have n: "dcacheMap scenarioPM 100 = None" by (simp add: scenarioPM_def)
  note a = C7_GetDentryCache_returns_live_cache [of "t0 + 4 * Minute" "Some indexedPM" 100
      "dcache scenarioDentries"]
  note b = C7_GetDentryCache_returns_live_cache [of "t0 + 6 * Minute" "Some indexedPM" 100
      "dcache scenarioDentries" indexedPM scenarioDentries indexedPM]
  note c = C7_GetDentryCache_returns_live_cache [of "t0 + 6 * Minute" "Some scenarioPM" 100
      "dcache scenarioDentries" scenarioPM scenarioDentries indexedPM]
  have 1: "\<not> IsExpired (t0 + 4 * Minute) (dcache scenarioDentries)"
    using a g by blast
  have 2: "snd (GetDentryCache (t0 + 4 * Minute) (Some indexedPM) 100) = Some indexedPM"
    using a g by blast
  have 3: "GetDentryCache (t0 + 6 * Minute) (Some indexedPM) 100 =
     (None, Some (dropDentryCache indexedPM 100))"
    using b s e by blast
  have 4: "dcacheMap (dropDentryCache indexedPM 100) 100 = None"
    using b by blast
  have 5: "GetDentryCache (t0 + 6 * Minute) (Some scenarioPM) 100 = (None, Some scenarioPM)"
    using c n by blast
  from g 1 2 s e 3 4 n 5 show ?thesis by blast
qed

text \<open>The claim as stated fails in its last part: the removal is not atomic with the
  check.  Six minutes after \<open>t0\<close>, a caller of \<^verbatim>\<open>GetDentryCache(100)\<close> finds the cache
  expired.  Before its \<^verbatim>\<open>Delete\<close> runs, the janitor's sweep deletes the entry and a
  worker loading the index stores a new cache under inode 100 (\<open>storeIndexDentry\<close>),
  which is not expired.  The caller's \<^verbatim>\<open>Delete\<close> then removes that cache.\<close>

theorem C7_removal_is_not_atomic:
  "checkDentryCache (t0 + 6 * Minute) indexedPM 100 = Stale \<and>
   dcacheMap (sweepExpired (scenarioSweep (t0 + 6 * Minute)) indexedPM) 100 = None \<and>
   map_option (\<lambda>e. IsExpired (t0 + 6 * Minute) (dcache e))
     (dcacheMap (storeIndexDentry (t0 + 6 * Minute) scenarioIndex 100 ''f1'' 101
        (sweepExpired (scenarioSweep (t0 + 6 * Minute)) indexedPM)) 100) = Some False \<and>
   dcacheMap (dropDentryCache (storeIndexDentry (t0 + 6 * Minute) scenarioIndex 100 ''f1'' 101
        (sweepExpired (scenarioSweep (t0 + 6 * Minute)) indexedPM)) 100) 100 = None"
  by (simp add: checkDentryCache_def indexedPM_def scenarioPM_def scenarioDentries_def
      scenarioIndex_def scenarioSweep_def sweepExpired_def cleanIndex_def cleanDcache_def
      deleteIndex_def deleteDcache_def storeIndexDentry_def dropDentryCache_def IsExpired_def NewDentryCache_def Put_def
      minutes_def Minute_def Unix_def t0_def Let_def)

section \<open>C8: the janitor and the registry\<close>

lemma cleanIndex_map:
  "indexFileInfoMap (cleanIndex clock a v pm) =
     (if 0 < ttl v \<and> ttl v < Unix (clock a) then (indexFileInfoMap pm)(a := None)
      else indexFileInfoMap pm)"
  by (simp add: cleanIndex_def deleteIndex_def)

lemma Range_cleanIndex_map:
  "indexFileInfoMap (sync_Range ks indexFileInfoMap (cleanIndex clock) pm) k =
     (case indexFileInfoMap pm k of
        None \<Rightarrow> None
      | Some i \<Rightarrow>
          if k \<in> set ks \<and> 0 < ttl i \<and> ttl i < Unix (clock k) then None else Some i)"
proof (induction ks arbitrary: pm)
  case Nil
  then show ?case by (simp split: option.splits)
next
  case (Cons a ks)
  show ?case
  proof (cases "indexFileInfoMap pm a")
    case None
    then show ?thesis by (auto simp: Cons.IH split: option.splits)
  next
    case (Some v)
    then show ?thesis
      by (auto simp: Cons.IH cleanIndex_map split: option.splits)
  qed
qed

lemma clean_callbacks_frame:
  "indexFileInfoMap (cleanDcache clock a v pm) = indexFileInfoMap pm"
  "indexFileInfoMap (cleanLookupDcache clock a dc pm) = indexFileInfoMap pm"
  "metrics (cleanIndex clock' k i pm) = metrics pm"
  "metrics (cleanDcache clock a v pm) = metrics pm"
  "metrics (cleanLookupDcache clock a dc pm) = metrics pm"
  by (simp_all add: cleanDcache_def cleanLookupDcache_def cleanIndex_def deleteIndex_def
      deleteDcache_def deleteLookupDcache_def)

lemma sync_Range_frame:
  assumes "\<And>k v s. g (f k v s) = g s"
  shows "g (sync_Range ks load f s) = g s"
proof (induction ks arbitrary: s)
  case Nil
  then show ?case by simp
next
  case (Cons a ks)
  show ?case by (cases "load s a") (simp_all add: Cons.IH assms)
qed

lemma Range_cleanDcache_registry:
  "indexFileInfoMap (sync_Range ks dcacheMap (cleanDcache clock) pm) = indexFileInfoMap pm"
  by (rule sync_Range_frame) (rule clean_callbacks_frame)

lemma Range_cleanLookupDcache_registry:
  "indexFileInfoMap (sync_Range ks lookupDcache (cleanLookupDcache clock) pm) = indexFileInfoMap pm"
  by (rule sync_Range_frame) (rule clean_callbacks_frame)

lemma sweepExpired_metrics: "metrics (sweepExpired sw pm) = metrics pm"
  by (simp add: sweepExpired_def sync_Range_frame clean_callbacks_frame)

lemma janitor_returns:
  "metrics pm \<noteq> None \<Longrightarrow> \<exists>pm'. cleanExpiredIndexInfo evs pm = Returns pm'"
proof (induction evs pm rule: cleanExpiredIndexInfo.induct)
  case (1 pm)
  then show ?case by simp
next
  case (2 evs pm)
  then show ?case by simp
next
  case (3 evs pm)
  then obtain m where m: "metrics pm = Some m" by auto
  then show ?case using 3 by (simp add: publishMetrics_def)
next
  case (4 sw evs pm)
  then show ?case by (simp add: sweepExpired_metrics)
qed

lemma sweepExpired_registry:
  "indexFileInfoMap (sweepExpired sw pm) k =
     (case indexFileInfoMap pm k of
        None \<Rightarrow> None
      | Some i \<Rightarrow>
          if k \<in> set (indexOrder sw) \<and> 0 < ttl i \<and> ttl i < Unix (indexClock sw k)
          then None else Some i)"
  by (simp add: sweepExpired_def Range_cleanLookupDcache_registry Range_cleanDcache_registry
      Range_cleanIndex_map)

lemma sweeps_keep_unlimited:
  "indexFileInfoMap pm k = Some i \<Longrightarrow> ttl i = 0 \<Longrightarrow>
   indexFileInfoMap (fold sweepExpired sws pm) k = Some i"
  by (induction sws arbitrary: pm) (simp_all add: sweepExpired_registry)

lemma janitor_keeps_unlimited:
  "cleanExpiredIndexInfo evs pm = Returns pm' \<Longrightarrow>
   indexFileInfoMap pm k = Some i \<Longrightarrow> ttl i = 0 \<Longrightarrow> indexFileInfoMap pm' k = Some i"
proof (induction evs pm rule: cleanExpiredIndexInfo.induct)
  case (1 pm)
  then show ?case by simp
next
  case (2 evs pm)
  then show ?case by simp
next
  case (3 evs pm)
  then show ?case
    by (auto simp: publishMetrics_def split: outcome.splits option.splits)
next
  case (4 sw evs pm)
  then show ?case by (simp add: sweepExpired_registry)
qed

lemma readd_expired_index:
  "AddIndexFilepath scenarioFS readdClock ''2'' ''/idx/a.txt'' 0 indexedPM =
     (None, indexedPM\<lparr>indexFileInfoMap :=
          [''/idx/a.txt'' \<mapsto> \<lparr>path = ''/idx/a.txt'', datasetCnt = ''2'', ttl = 0,
             validMinute = 0, fileInfoMap = []\<rparr>],
        indexInfoChan := [\<lparr>path = ''/idx/a.txt'', datasetCnt = ''2'', ttl = 0,
             validMinute = 0, fileInfoMap = []\<rparr>]\<rparr>)"
  by (simp add: AddIndexFilepath_def resetExistedIndexInfo_def statAndEnqueue_def
      putIndexInfoChan_def indexedPM_def scenarioPM_def scenarioIndex_def readdClock_def
      scenarioFS_def Unix_def t0_def Minute_def Let_def)

text \<open>
  Claim C8, as amended.  A visit of the janitor to a key of the registry calls
  \<^verbatim>\<open>Delete\<close> on the key if and only if the \<^verbatim>\<open>IndexInfo\<close> that the \<^verbatim>\<open>Range\<close> loaded for
  the key (\<open>i\<close>) has a positive \<open>ttl\<close> and the clock, read in seconds at the visit, is
  past it.  The \<^verbatim>\<open>Delete\<close> is a step of its own, after the test: it removes whatever is
  stored under the key in the manager it runs on (\<open>cur\<close>), and nothing else.  In a sweep
  during which nothing else writes the registry (\<open>sweepExpired\<close>), an entry that the
  \<^verbatim>\<open>Range\<close> visits is deleted if and only if its \<open>ttl\<close> is positive and the clock is past
  it, and an entry that is kept is unchanged; an entry whose \<open>ttl\<close> is 0 is then still in
  the registry, unchanged, after any sequence of such sweeps, and after any run of the
  janitor's loop made of such sweeps.
\<close>

theorem C8_janitor_deletes_expired_only:
  "(0 < ttl i \<and> ttl i < Unix (clock k) \<longrightarrow> cleanIndex clock k i cur = deleteIndex k cur) \<and>
   (\<not> (0 < ttl i \<and> ttl i < Unix (clock k)) \<longrightarrow> cleanIndex clock k i cur = cur) \<and>
   indexFileInfoMap (deleteIndex k cur) k = None \<and>
   (\<forall>q. q \<noteq> k \<longrightarrow> indexFileInfoMap (deleteIndex k cur) q = indexFileInfoMap cur q) \<and>
   (indexFileInfoMap pm k = Some i \<and> k \<in> set (indexOrder sw) \<longrightarrow>
      (indexFileInfoMap (sweepExpired sw pm) k = None) =
        (0 < ttl i \<and> ttl i < Unix (indexClock sw k))) \<and>
   (indexFileInfoMap pm k = Some i \<and> indexFileInfoMap (sweepExpired sw pm) k \<noteq> None \<longrightarrow>
      indexFileInfoMap (sweepExpired sw pm) k = Some i) \<and>
   (indexFileInfoMap pm k = Some i \<and> ttl i = 0 \<longrightarrow>
      indexFileInfoMap (fold sweepExpired sws pm) k = Some i) \<and>
   (indexFileInfoMap pm k = Some i \<and> ttl i = 0 \<and> cleanExpiredIndexInfo evs pm = Returns pm' \<longrightarrow>
      indexFileInfoMap pm' k = Some i)"
proof (intro conjI impI allI)
  assume "0 < ttl i \<and> ttl i < Unix (clock k)"
  then show "cleanIndex clock k i cur = deleteIndex k cur" by (simp add: cleanIndex_def)
next
  assume "\<not> (0 < ttl i \<and> ttl i < Unix (clock k))"
  then show "cleanIndex clock k i cur = cur" by (auto simp: cleanIndex_def)
next
  show "indexFileInfoMap (deleteIndex k cur) k = None" by (simp add: deleteIndex_def)
next
  fix q
  assume "q \<noteq> k"
  then show "indexFileInfoMap (deleteIndex k cur) q = indexFileInfoMap cur q"
    by (simp add: deleteIndex_def)
next
  assume "indexFileInfoMap pm k = Some i \<and> k \<in> set (indexOrder sw)"
  then show "(indexFileInfoMap (sweepExpired sw pm) k = None) =
        (0 < ttl i \<and> ttl i < Unix (indexClock sw k))"
    by (simp add: sweepExpired_registry)
next
  assume "indexFileInfoMap pm k = Some i \<and> indexFileInfoMap (sweepExpired sw pm) k \<noteq> None"
  then show "indexFileInfoMap (sweepExpired sw pm) k = Some i"
    by (auto simp: sweepExpired_registry split: if_splits)
next
  assume "indexFileInfoMap pm k = Some i \<and> ttl i = 0"
  then show "indexFileInfoMap (fold sweepExpired sws pm) k = Some i"
    by (simp add: sweeps_keep_unlimited)
next
  assume "indexFileInfoMap pm k = Some i \<and> ttl i = 0 \<and> cleanExpiredIndexInfo evs pm = Returns pm'"
  then show "indexFileInfoMap pm' k = Some i"
    using janitor_keeps_unlimited by blast
qed

text \<open>The scenario: six minutes after \<open>t0\<close> the visit to the index added with a TTL of
  five minutes calls \<^verbatim>\<open>Delete\<close>, and a sweep on its own deletes the entry; the same
  entry with \<open>ttl = 0\<close> is passed over by a visit, and survives two sweeps and a run of
  the janitor.\<close>

theorem C8_janitor_deletes_expired_only_witness:
  "indexFileInfoMap indexedPM ''/idx/a.txt'' = Some scenarioIndex \<and>
   ''/idx/a.txt'' \<in> set (indexOrder (scenarioSweep (t0 + 6 * Minute))) \<and>
   0 < ttl scenarioIndex \<and>
   ttl scenarioIndex < Unix (indexClock (scenarioSweep (t0 + 6 * Minute)) ''/idx/a.txt'') \<and>
   cleanIndex (indexClock (scenarioSweep (t0 + 6 * Minute))) ''/idx/a.txt'' scenarioIndex indexedPM =
     deleteIndex ''/idx/a.txt'' indexedPM \<and>
   indexFileInfoMap (deleteIndex ''/idx/a.txt'' indexedPM) ''/idx/a.txt'' = None \<and>
   cleanIndex (indexClock (scenarioSweep (t0 + 6 * Minute))) ''/idx/a.txt''
       (scenarioIndex\<lparr>ttl := 0\<rparr>) indexedPM = indexedPM \<and>
   indexFileInfoMap (sweepExpired (scenarioSweep (t0 + 6 * Minute)) indexedPM) ''/idx/a.txt'' = None \<and>
   indexFileInfoMap
     (fold sweepExpired [scenarioSweep (t0 + 6 * Minute), scenarioSweep (t0 + 7 * Minute)]
        (indexedPM\<lparr>indexFileInfoMap := [''/idx/a.txt'' \<mapsto> scenarioIndex\<lparr>ttl := 0\<rparr>]\<rparr>))
     ''/idx/a.txt'' = Some (scenarioIndex\<lparr>ttl := 0\<rparr>) \<and>
   (\<exists>pm'. cleanExpiredIndexInfo
       [MinuteTick (scenarioSweep (t0 + 6 * Minute)), SecondTick, CloseSignal]
       (indexedPM\<lparr>indexFileInfoMap := [''/idx/a.txt'' \<mapsto> scenarioIndex\<lparr>ttl := 0\<rparr>]\<rparr>) =
         Returns pm' \<and>
       indexFileInfoMap pm' ''/idx/a.txt'' = Some (scenarioIndex\<lparr>ttl := 0\<rparr>))"
proof -
  let ?sw = "scenarioSweep (t0 + 6 * Minute)"
  let ?k = "''/idx/a.txt''"
  let ?i0 = "scenarioIndex\<lparr>ttl := 0\<rparr>"
  let ?pm0 = "indexedPM\<lparr>indexFileInfoMap := [''/idx/a.txt'' \<mapsto> scenarioIndex\<lparr>ttl := 0\<rparr>]\<rparr>"
  have a: "indexFileInfoMap indexedPM ?k = Some scenarioIndex"
    by (simp add: indexedPM_def)
  have b: "?k \<in> set (indexOrder ?sw)" by (simp add: scenarioSweep_def)
  have c: "0 < ttl scenarioIndex \<and> ttl scenarioIndex < Unix (indexClock ?sw ?k)"
    by (simp add: scenarioIndex_def scenarioSweep_def Unix_def t0_def Minute_def)
  have d: "indexFileInfoMap ?pm0 ?k = Some ?i0" by simp
  have e: "ttl ?i0 = 0" by simp
  have e': "\<not> (0 < ttl ?i0 \<and> ttl ?i0 < Unix (indexClock ?sw ?k))" by simp
  have "metrics ?pm0 \<noteq> None" by (simp add: indexedPM_def scenarioPM_def)
  then obtain pm' where run: "cleanExpiredIndexInfo [MinuteTick ?sw, SecondTick, CloseSignal] ?pm0 =
      Returns pm'"
    using janitor_returns by blast
  note th = C8_janitor_deletes_expired_only
  have v1: "cleanIndex (indexClock ?sw) ?k scenarioIndex indexedPM = deleteIndex ?k indexedPM"
    using th [where i = scenarioIndex and clock = "indexClock ?sw" and k = ?k and cur = indexedPM] c
    by blast
  have v2: "indexFileInfoMap (deleteIndex ?k indexedPM) ?k = None"
    using th [where k = ?k and cur = indexedPM] by blast
  have v3: "cleanIndex (indexClock ?sw) ?k ?i0 indexedPM = indexedPM"
    using th [where i = ?i0 and clock = "indexClock ?sw" and k = ?k and cur = indexedPM] e'
    by blast
  have 1: "indexFileInfoMap (sweepExpired ?sw indexedPM) ?k = None"
    using th [where pm = indexedPM and k = ?k and i = scenarioIndex and sw = ?sw] a b c by blast
  have 2: "indexFileInfoMap
     (fold sweepExpired [?sw, scenarioSweep (t0 + 7 * Minute)] ?pm0) ?k = Some ?i0"
    using th [where pm = ?pm0 and k = ?k and i = ?i0
        and sws = "[?sw, scenarioSweep (t0 + 7 * Minute)]"] d e by blast
  have 3: "indexFileInfoMap pm' ?k = Some ?i0"
    using th [where pm = ?pm0 and k = ?k and i = ?i0
        and evs = "[MinuteTick ?sw, SecondTick, CloseSignal]" and pm' = pm'] d e run by blast
  from a b c v1 v2 v3 1 2 run 3 show ?thesis by blast
qed

text \<open>The claim as stated fails: the \<^verbatim>\<open>Delete\<close> of a visit is not atomic with its test.
  Six minutes after \<open>t0\<close>, the janitor's \<^verbatim>\<open>Range\<close> loads the index added with a TTL of
  five minutes, which is expired.  Before the callback's \<^verbatim>\<open>Delete\<close> runs,
  \<^verbatim>\<open>AddIndexFilepath\<close> is called for the same path with a TTL of 0: it finds the old
  entry expired and stores a new \<^verbatim>\<open>IndexInfo\<close> whose \<open>ttl\<close> is 0.  The callback, run with
  the value loaded before on the manager as it is now, deletes that entry.\<close>

theorem C8_delete_is_not_atomic:
  "indexFileInfoMap indexedPM ''/idx/a.txt'' = Some scenarioIndex \<and>
   0 < ttl scenarioIndex \<and>
   ttl scenarioIndex < Unix (indexClock (scenarioSweep (t0 + 6 * Minute)) ''/idx/a.txt'') \<and>
   fst (AddIndexFilepath scenarioFS readdClock ''2'' ''/idx/a.txt'' 0 indexedPM) = None \<and>
   map_option ttl
     (indexFileInfoMap
        (snd (AddIndexFilepath scenarioFS readdClock ''2'' ''/idx/a.txt'' 0 indexedPM))
        ''/idx/a.txt'') = Some 0 \<and>
   indexFileInfoMap
     (cleanIndex (indexClock (scenarioSweep (t0 + 6 * Minute))) ''/idx/a.txt'' scenarioIndex
        (snd (AddIndexFilepath scenarioFS readdClock ''2'' ''/idx/a.txt'' 0 indexedPM)))
     ''/idx/a.txt'' = None"
  unfolding readd_expired_index
  by (simp add: indexedPM_def scenarioIndex_def scenarioSweep_def cleanIndex_def deleteIndex_def
      Unix_def t0_def Minute_def)

section \<open>C10: methods called on a nil manager\<close>

text \<open>
  Claim C10.  On a nil receiver, \<^verbatim>\<open>GetDentryCache\<close> returns nil, \<^verbatim>\<open>ContainsAppPid\<close>
  returns false, and \<^verbatim>\<open>PutAppPid\<close>, \<^verbatim>\<open>DeleteAppPid\<close>, \<^verbatim>\<open>AddTotalReadCount\<close> and
  \<^verbatim>\<open>AddAppReadCount\<close> return without an effect; none of them panics, and the manager
  is still nil afterwards.
\<close>

theorem C10_nil_receiver_is_safe:
  "GetDentryCache now None parIno = (None, None) \<and>
   PutAppPid None pid = None \<and>
   DeleteAppPid None pid = None \<and>
   ContainsAppPid None pid = False \<and>
   AddTotalReadCount None = Returns None \<and>
   AddAppReadCount None = Returns None"
  by (simp add: GetDentryCache_def PutAppPid_def DeleteAppPid_def ContainsAppPid_def
      AddTotalReadCount_def AddAppReadCount_def)

text \<open>On a manager that is not nil the same methods do their work.\<close>

lemma AppPid_methods:
  "ContainsAppPid (PutAppPid (Some pm) pid) pid" and
  "\<not> ContainsAppPid (DeleteAppPid (Some pm) pid) pid" and
  "metrics pm = Some m \<Longrightarrow>
   AddTotalReadCount (Some pm) =
     Returns (Some (pm\<lparr>metrics := Some (m\<lparr>totalReadCount := totalReadCount m + 1\<rparr>)\<rparr>))"
  by (auto simp: ContainsAppPid_def PutAppPid_def DeleteAppPid_def AddTotalReadCount_def
      split: option.splits)

section \<open>C9: the lines of an index file\<close>

lemma scanLines_map: "scanLines mp lines infos = infos @ map (lineInfo mp) lines"
  by (induction lines arbitrary: infos) (simp_all add: lineInfo_def Let_def)

lemma occursAt_0: "occursAt old s 0 = strings_HasPrefix s old"
  by (auto simp: occursAt_def strings_HasPrefix_def)

lemma occursAt_Suc: "occursAt old (c # cs) (Suc i) = occursAt old cs i"
  by (simp add: occursAt_def)

lemma Replace1_prefix:
  assumes "strings_HasPrefix s old"
  shows "strings_Replace1 s old = drop (length old) s"
proof (cases "old = []")
  case True
  then show ?thesis by (simp add: strings_Replace1_def)
next
  case False
  with assms obtain c cs where s: "s = c # cs"
    by (cases s) (auto simp: strings_HasPrefix_def)
  show ?thesis using assms False unfolding s by (simp add: strings_Replace1_def)
qed

lemma removeFirst_leftmost:
  "old \<noteq> [] \<Longrightarrow> occursAt old s i \<Longrightarrow> (\<forall>j<i. \<not> occursAt old s j) \<Longrightarrow>
   removeFirst old s = take i s @ drop (i + length old) s"
proof (induction s arbitrary: i)
  case Nil
  then show ?case by (simp add: occursAt_def)
next
  case (Cons c cs)
  show ?case
  proof (cases i)
    case 0
    with Cons.prems have "strings_HasPrefix (c # cs) old" by (simp add: occursAt_0)
    with 0 show ?thesis by simp
  next
    case (Suc i')
    with Cons.prems have no0: "\<not> strings_HasPrefix (c # cs) old"
      using occursAt_0 [of old "c # cs"] by auto
    have at: "occursAt old cs i'" using Cons.prems(2) Suc by (simp add: occursAt_Suc)
    have before: "\<forall>j<i'. \<not> occursAt old cs j"
    proof (intro allI impI)
      fix j
      assume "j < i'"
      then have "Suc j < i" using Suc by simp
      then have "\<not> occursAt old (c # cs) (Suc j)" using Cons.prems(3) by blast
      then show "\<not> occursAt old cs j" by (simp add: occursAt_Suc)
    qed
    have "removeFirst old cs = take i' cs @ drop (i' + length old) cs"
      by (rule Cons.IH [OF Cons.prems(1) at before])
    with no0 Suc show ?thesis by simp
  qed
qed

lemma removeFirst_none:
  "(\<forall>i. \<not> occursAt old s i) \<Longrightarrow> removeFirst old s = s"
proof (induction s)
  case Nil
  then show ?case by simp
next
  case (Cons c cs)
  have no0: "\<not> strings_HasPrefix (c # cs) old"
    using Cons.prems occursAt_0 [of old "c # cs"] by blast
  have "\<forall>i. \<not> occursAt old cs i"
  proof
    fix i
    have "\<not> occursAt old (c # cs) (Suc i)" using Cons.prems by blast
    then show "\<not> occursAt old cs i" by (simp add: occursAt_Suc)
  qed
  then have "removeFirst old cs = cs" by (rule Cons.IH)
  with no0 show ?case by simp
qed

lemma readIndexFileByLine_returns:
  "readIndexFileByLine mp None lines scanErr info = Returns (e, info') \<Longrightarrow>
   e = scanErr \<and> info' = info\<lparr>fileInfoMap := map (lineInfo mp) lines\<rparr>"
  by (auto simp: readIndexFileByLine_def Let_def scanLines_map split: if_splits)

text \<open>Evaluation of the library functions on literals.\<close>

lemmas trim_eval = strings_TrimSpace_def TrimLeftSpace.simps TrimRightSpace.simps
  leadingSpace_def trailingSpace_def spaceRunes_def strings_HasPrefix_def strings_HasSuffix_def

lemma TrimSpace_examples:
  "strings_TrimSpace ''  /a b '' = ''/a b''"
  "strings_TrimSpace [CHR 0x09, CHR ''x'', CHR 0x0D] = ''x''"
  "strings_TrimSpace [CHR 0xC2, CHR 0xA0, CHR ''x'', CHR 0xE3, CHR 0x80, CHR 0x80] = ''x''"
  "strings_TrimSpace [CHR 0xC2, CHR ''x''] = [CHR 0xC2, CHR ''x'']"
  "strings_TrimSpace '' '' = []"
  by (simp_all add: trim_eval)

lemma ParseInt_examples:
  "ParseInt ''2'' = Some 2" "ParseInt ''-15'' = Some (- 15)" "ParseInt ''+7'' = Some 7"
  "ParseInt '''' = None" "ParseInt ''2a'' = None" "ParseInt ''-'' = None"
  "ParseInt ''9223372036854775807'' = Some 9223372036854775807"
  "ParseInt ''9223372036854775808'' = None"
  "ParseInt ''-9223372036854775808'' = Some (- 9223372036854775808)"
  by (simp_all add: ParseInt_def digitValue_def)


text \<open>When \<^verbatim>\<open>readIndexFileByLine\<close> returns, the file list of the index has one
  \<^verbatim>\<open>FileInfo\<close> per line that the scanner returned, in the order of the lines.\<close>

lemma readIndexFileByLine_keeps_line_order:
  assumes "readIndexFileByLine mp None lines scanErr info = Returns (e, info')"
  shows "e = scanErr"
    and "fileInfoMap info' = map (lineInfo mp) lines"
    and "length (fileInfoMap info') = length lines"
    and "\<forall>n < length lines.
           path_FileInfo (fileInfoMap info' ! n) =
             strings_TrimSpace (strings_Replace1 (lines ! n) mp)"
  using readIndexFileByLine_returns [OF assms] by (simp_all add: lineInfo_def)

text \<open>A line that begins with the mount point is stored without it, and a line that
  does not hold the mount point is stored as it is, both trimmed.\<close>

lemma lineInfo_mount_prefix:
  "strings_HasPrefix line mp \<Longrightarrow>
   path_FileInfo (lineInfo mp line) = strings_TrimSpace (drop (length mp) line)"
  by (simp add: lineInfo_def Replace1_prefix)

lemma lineInfo_without_mount_point:
  "(\<forall>i. \<not> occursAt mp line i) \<Longrightarrow> path_FileInfo (lineInfo mp line) = strings_TrimSpace line"
  by (simp add: lineInfo_def strings_Replace1_def removeFirst_none)

text \<open>What the code stores for any line that holds the mount point: the line without the
  leftmost occurrence of the mount point, wherever that stands, trimmed.\<close>

lemma lineInfo_leftmost_occurrence:
  "mp \<noteq> [] \<Longrightarrow> occursAt mp line i \<Longrightarrow> (\<forall>j<i. \<not> occursAt mp line j) \<Longrightarrow>
   path_FileInfo (lineInfo mp line) =
     strings_TrimSpace (take i line @ drop (i + length mp) line)"
  by (simp add: lineInfo_def strings_Replace1_def removeFirst_leftmost)

text \<open>Scenario 1 of the spec: the index file holds the lines \<^verbatim>\<open>/mnt/v/d1/f1\<close> and
  \<^verbatim>\<open>/mnt/v/d1/f2\<close>.\<close>

lemma readIndexFileByLine_scenario:
  "readIndexFileByLine ''/mnt/v'' None [''/mnt/v/d1/f1'', ''/mnt/v/d1/f2''] None
     (scenarioIndex\<lparr>fileInfoMap := []\<rparr>) =
     Returns (None, scenarioIndex\<lparr>fileInfoMap :=
       [\<lparr>path_FileInfo = ''/d1/f1'', inoID = 0, isAbs = False\<rparr>,
        \<lparr>path_FileInfo = ''/d1/f2'', inoID = 0, isAbs = False\<rparr>]\<rparr>)"
  by (simp add: readIndexFileByLine_def scenarioIndex_def ParseInt_def digitValue_def Let_def
      strings_Replace1_def trim_eval)

text \<open>
  Claim C9, at a failing input.  The claim keeps a line that does not begin with the
  mount point as it is, apart from the trimming.  With the mount point \<^verbatim>\<open>/mnt/v\<close>, the
  line \<^verbatim>\<open>/data/mnt/v/x\<close> does not begin with the mount point and has no white space
  around it, yet the path stored for it is \<^verbatim>\<open>/data/x\<close>; with the mount point
  \<^verbatim>\<open>/data\<close>, the line \<^verbatim>\<open>train/data/001.jpg\<close> is stored as \<^verbatim>\<open>train/001.jpg\<close>.
  \<^verbatim>\<open>readIndexFileByLine\<close> calls \<^verbatim>\<open>strings.Replace\<close> on every line, which removes the
  leftmost occurrence of the mount point wherever it stands; \<^verbatim>\<open>LookupPathByCache\<close>
  makes the same call only after \<^verbatim>\<open>strings.HasPrefix\<close>.
\<close>

theorem C9_mount_point_inside_line:
  "\<not> strings_HasPrefix ''/data/mnt/v/x'' ''/mnt/v'' \<and>
   strings_TrimSpace ''/data/mnt/v/x'' = ''/data/mnt/v/x'' \<and>
   readIndexFileByLine ''/mnt/v'' None [''/data/mnt/v/x''] None
     (scenarioIndex\<lparr>fileInfoMap := []\<rparr>) =
     Returns (None, scenarioIndex\<lparr>fileInfoMap :=
       [\<lparr>path_FileInfo = ''/data/x'', inoID = 0, isAbs = False\<rparr>]\<rparr>) \<and>
   \<not> strings_HasPrefix ''train/data/001.jpg'' ''/data'' \<and>
   strings_TrimSpace ''train/data/001.jpg'' = ''train/data/001.jpg'' \<and>
   readIndexFileByLine ''/data'' None [''train/data/001.jpg''] None
     (scenarioIndex\<lparr>fileInfoMap := []\<rparr>) =
     Returns (None, scenarioIndex\<lparr>fileInfoMap :=
       [\<lparr>path_FileInfo = ''train/001.jpg'', inoID = 0, isAbs = False\<rparr>]\<rparr>)"
  by (simp add: readIndexFileByLine_def scenarioIndex_def ParseInt_def digitValue_def Let_def
      strings_Replace1_def trim_eval)

text \<open>A dataset count that parses to a negative number makes \<^verbatim>\<open>make\<close> panic.\<close>

lemma readIndexFileByLine_negative_count:
  "readIndexFileByLine mp None lines scanErr (info\<lparr>datasetCnt := ''-1''\<rparr>) = Panics"
  by (simp add: readIndexFileByLine_def ParseInt_def digitValue_def Let_def)

end
